(* ===== verification/Prelude.thy ===== *)
theory Prelude
  imports Main
begin

text \<open>
  Shared vocabulary of the development. The forms of the resume editor keep their
  records in lists keyed by a string id and edit them with three JavaScript array idioms:
  \<open>items.map(a => a.id === x ? f(a) : a)\<close> (update in place),
  \<open>items.filter(a => a.id !== x)\<close> (delete) and \<open>items.find(a => a.id === x)\<close>
  (lookup). The lemmas below describe these idioms over an arbitrary key function
  \<open>k\<close> and are collected in \<open>keyed_simps\<close>, which the component theories pass to
  \<open>simp\<close> and \<open>auto\<close>. The collection \<open>handler_defs\<close> gathers the definitions of the
  components' event handlers, so that a proof about a step unfolds all of them at once.
\<close>

named_theorems keyed_simps "facts on id-keyed lists edited by map, filter and find"
named_theorems handler_defs "definitions of the event handlers of the form components"

type_synonym field_errors = "(string \<times> string) list"
  \<comment> \<open>a form's validation result: field name and message, in schema order\<close>

subsection \<open>Update in place\<close>

lemma map_keyed_update_keys [keyed_simps]:
  assumes "\<And>a. k (g a) = k a"
  shows "map k (map (\<lambda>a. if k a = x then g a else a) xs) = map k xs"
  using assms by (induction xs) auto

lemma keyed_update_absent [keyed_simps]:
  "x \<notin> k ` set xs \<Longrightarrow> map (\<lambda>a. if k a = x then g a else a) xs = xs"
  by (induction xs) auto

lemma keyed_update_nth:
  "i < length xs \<Longrightarrow>
   map (\<lambda>a. if k a = x then g a else a) xs ! i = (if k (xs ! i) = x then g (xs ! i) else xs ! i)"
  by simp

lemma keyed_update_split:
  assumes "distinct (map k (ys @ a # zs))" and "k a = x"
  shows "map (\<lambda>b. if k b = x then g b else b) (ys @ a # zs) = ys @ g a # zs"
proof -
  from assms have "x \<notin> k ` set ys" and "x \<notin> k ` set zs" by auto
  with assms(2) show ?thesis by (simp add: keyed_update_absent)
qed

subsection \<open>Delete\<close>

lemma keyed_filter_removes [keyed_simps]:
  "x \<notin> k ` set (filter (\<lambda>a. k a \<noteq> x) xs)"
  by auto

lemma keyed_filter_absent [keyed_simps]:
  "x \<notin> k ` set xs \<Longrightarrow> filter (\<lambda>a. k a \<noteq> x) xs = xs"
  by (induction xs) auto

lemma distinct_keyed_filter [keyed_simps]:
  "distinct (map k xs) \<Longrightarrow> distinct (map k (filter P xs))"
  by (induction xs) auto

lemma keyed_filter_split:
  assumes "distinct (map k (ys @ a # zs))" and "k a = x"
  shows "filter (\<lambda>b. k b \<noteq> x) (ys @ a # zs) = ys @ zs"
proof -
  from assms have "x \<notin> k ` set ys" and "x \<notin> k ` set zs" by auto
  with assms(2) show ?thesis by (simp add: keyed_filter_absent)
qed

subsection \<open>Lookup\<close>

lemma keyed_find_None [keyed_simps]:
  "(find (\<lambda>a. k a = x) xs = None) = (x \<notin> k ` set xs)"
  by (auto simp: find_None_iff)

lemma keyed_find_Some:
  "find (\<lambda>a. k a = x) xs = Some a \<Longrightarrow> a \<in> set xs \<and> k a = x"
  by (auto simp: find_Some_iff)

lemma keyed_find_split:
  assumes "distinct (map k (ys @ a # zs))" and "k a = x"
  shows "find (\<lambda>b. k b = x) (ys @ a # zs) = Some a"
proof -
  from assms have "x \<notin> k ` set ys" by auto
  then have "find (\<lambda>b. k b = x) ys = None" by (simp add: keyed_find_None)
  with assms(2) show ?thesis by (induction ys) auto
qed

lemma keyed_split:
  assumes "x \<in> k ` set xs"
  shows "\<exists>ys a zs. xs = ys @ a # zs \<and> k a = x"
proof -
  from assms obtain a where "a \<in> set xs" and "k a = x" by blast
  moreover from \<open>a \<in> set xs\<close> obtain ys zs where "xs = ys @ a # zs"
    by (blast dest: split_list)
  ultimately show ?thesis by blast
qed

subsection \<open>Association-list view\<close>

lemma map_of_keyed_update_other:
  assumes "\<And>a. k (g a) = k a" and "y \<noteq> x"
  shows "map_of (map (\<lambda>a. (k a, v a)) (map (\<lambda>a. if k a = x then g a else a) xs)) y =
         map_of (map (\<lambda>a. (k a, v a)) xs) y"
  using assms by (induction xs) auto

lemma map_of_keyed_update [keyed_simps]:
  assumes "\<And>a. k (g a) = k a" and "\<And>a. v (g a) = d" and "x \<in> k ` set xs"
  shows "map_of (map (\<lambda>a. (k a, v a)) (map (\<lambda>a. if k a = x then g a else a) xs)) =
         (map_of (map (\<lambda>a. (k a, v a)) xs))(x \<mapsto> d)"
  using assms(3)
proof (induction xs)
  case Nil
  then show ?case by simp
next
  case (Cons b xs)
  show ?case
  proof (cases "k b = x")
    case True
    have "map_of (map (\<lambda>a. (k a, v a)) (map (\<lambda>a. if k a = x then g a else a) xs)) y =
          map_of (map (\<lambda>a. (k a, v a)) xs) y" if "y \<noteq> x" for y
      using assms(1) that by (rule map_of_keyed_update_other)
    with True assms(1,2) show ?thesis by (auto simp: fun_eq_iff)
  next
    case False
    with Cons have "x \<in> k ` set xs" by simp
    with Cons.IH False show ?thesis by (auto simp: fun_eq_iff)
  qed
qed

lemma map_of_keyed_filter [keyed_simps]:
  "distinct (map k xs) \<Longrightarrow>
   map_of (map (\<lambda>a. (k a, v a)) (filter (\<lambda>a. k a \<noteq> x) xs)) =
   (map_of (map (\<lambda>a. (k a, v a)) xs))(x := None)"
  by (induction xs) (auto simp: fun_eq_iff)

end
