(* ===== verification/Uuid.thy ===== *)
theory Uuid
  imports Prelude
begin

text \<open>
  The identifier generator. Both list forms call \<open>uuid()\<close> of the \<open>uuid\<close> package
  (\<open>import { v4 as uuid } from 'uuid'\<close>) when a new record is appended. The package is
  not part of the repository; its contract (spec section 6) is a string that is unique over
  the application's lifetime. We model it as a counter: the \<open>n\<close>-th call returns the
  decimal digits of \<open>n\<close>. The only facts the forms rely on are that every id is a
  non-empty string (the forms test \<open>if (currentId)\<close>, where the empty string is false)
  and that distinct calls give distinct ids; both are proved here, the second from a
  print/parse round trip.
\<close>

definition digit_char :: "nat \<Rightarrow> char" where
  "digit_char d = char_of (48 + d)"

definition char_digit :: "char \<Rightarrow> nat" where
  "char_digit c = of_char c - 48"

fun show_nat :: "nat \<Rightarrow> string" where
  "show_nat n = (if n < 10 then [digit_char n] else show_nat (n div 10) @ [digit_char (n mod 10)])"

declare show_nat.simps [simp del]

definition read_nat :: "string \<Rightarrow> nat" where
  "read_nat cs = foldl (\<lambda>acc c. 10 * acc + char_digit c) 0 cs"

definition uuid :: "nat \<Rightarrow> string" where
  "uuid n = show_nat n"

definition issued :: "nat \<Rightarrow> string \<Rightarrow> bool" where
  "issued n x = (\<exists>k<n. x = uuid k)"
  \<comment> \<open>the id was returned by one of the first \<open>n\<close> calls\<close>

lemma char_digit_digit_char [simp]: "d < 10 \<Longrightarrow> char_digit (digit_char d) = d"
  by (simp add: char_digit_def digit_char_def)

lemma read_nat_snoc [simp]: "read_nat (cs @ [c]) = 10 * read_nat cs + char_digit c"
  by (simp add: read_nat_def)

lemma read_nat_single [simp]: "read_nat [c] = char_digit c"
  by (simp add: read_nat_def)

lemma show_nat_nonempty [simp]: "show_nat n \<noteq> []"
  by (subst show_nat.simps) simp

text \<open>Printing an id and reading it back gives the counter value: the round trip.\<close>

lemma read_show_nat [simp]: "read_nat (show_nat n) = n"
proof (induction n rule: show_nat.induct)
  case (1 n)
  show ?case
  proof (cases "n < 10")
    case True
    then show ?thesis by (subst show_nat.simps) simp
  next
    case False
    with "1.IH" have "read_nat (show_nat (n div 10)) = n div 10" by simp
    with False show ?thesis by (subst show_nat.simps) simp
  qed
qed

lemma uuid_inj: "inj uuid"
  by (rule inj_on_inverseI [where g = read_nat]) (simp add: uuid_def)

lemma uuid_eq_iff [simp]: "(uuid m = uuid n) = (m = n)"
  using uuid_inj by (auto dest: injD)

lemma uuid_nonempty [simp]: "uuid n \<noteq> []"
  by (simp add: uuid_def)

lemma issued_mono: "issued n x \<Longrightarrow> n \<le> m \<Longrightarrow> issued m x"
  by (auto simp: issued_def)

lemma issued_Suc [simp]: "issued (Suc n) x = (issued n x \<or> x = uuid n)"
  by (auto simp: issued_def less_Suc_eq)

lemma not_issued_self [simp]: "\<not> issued n (uuid n)"
  by (simp add: issued_def)

lemma issued_nonempty: "issued n x \<Longrightarrow> x \<noteq> []"
  by (auto simp: issued_def)

end
