(* ===== verification/Crud_Form.thy ===== *)
theory Crud_Form
  imports Uuid
begin

text \<open>
  The list-editing form controller that \<open>CertificationsForm/index.tsx\<close> and
  \<open>WorkExperienceForm/index.tsx\<close> both implement, with identical handler code and
  different field sets. The type parameter \<open>'d\<close> is the form's \<open>FormData\<close>; a form
  supplies its validation schema and blank values as a \<open>form_spec\<close>.

  React state: \<open>showModal\<close>, \<open>currentId\<close> and the item list
  (\<open>certifications\<close> / \<open>experiences\<close>) are \<open>useState\<close> hooks; \<open>formValues\<close> and
  \<open>errors\<close> are the state react-hook-form keeps for the modal's inputs. A handler returns
  the next state together with the id-generator counter and whether it called the item
  list's setter: every setter call passes a fresh array (\<open>map\<close>, \<open>filter\<close>,
  spread), so React's \<open>useEffect(\<dots>, [items])\<close> fires after exactly those handlers and
  writes the list into the shared resume context.
\<close>

record 'd entry =
  entry_id :: string
  data :: 'd

record 'd form_state =
  showModal :: bool
  currentId :: string
  items :: "'d entry list"
  formValues :: 'd
  errors :: field_errors

record 'd form_spec =
  schema :: "'d \<Rightarrow> field_errors"
  blank :: 'd

record 'd reaction =
  form :: "'d form_state"
  seed :: nat
  setItems :: bool

datatype 'd event =
    OnAdd
  | OnEdit string
  | OnDelete string
  | OnCloseModal
  | Input 'd
  | Submit

text \<open>
  The schemas are built with yup: \<open>yup.string().required('Campo obrigat\<dots>rio')\<close> rejects an
  undefined or empty value with the given message (a non-blank string of spaces passes),
  and \<open>yupResolver\<close> reports every failing field, in the order of the schema.
\<close>

definition required_message :: string where
  "required_message = ''Campo obrigat'' @ [CHR 0xC3, CHR 0xB3] @ ''rio''"
  \<comment> \<open>the UTF-8 bytes of the Portuguese message \<open>Campo obrigat\<dots>rio\<close>\<close>

definition required :: "string \<Rightarrow> string \<Rightarrow> field_errors" where
  "required field v = (if v = [] then [(field, required_message)] else [])"

definition init_form :: "'d form_spec \<Rightarrow> 'd form_state" where
  "init_form fs = \<lparr>showModal = False, currentId = [], items = [], formValues = blank fs, errors = []\<rparr>"

definition quiet :: "nat \<Rightarrow> 'd form_state \<Rightarrow> 'd reaction" where
  "quiet n s = \<lparr>form = s, seed = n, setItems = False\<rparr>"

definition reset :: "'d form_spec \<Rightarrow> 'd form_state \<Rightarrow> 'd form_state" where
  "reset fs s = s\<lparr>formValues := blank fs, errors := []\<rparr>"

definition handleFormSubmit :: "'d form_spec \<Rightarrow> nat \<Rightarrow> 'd form_state \<Rightarrow> 'd \<Rightarrow> 'd reaction" where
  "handleFormSubmit fs n s d =
     (if currentId s \<noteq> [] then
        \<lparr>form = reset fs (s\<lparr>items := map (\<lambda>award. if entry_id award = currentId s
                                                   then \<lparr>entry_id = entry_id award, data = d\<rparr>
                                                   else award) (items s),
                             currentId := [], showModal := False\<rparr>),
         seed = n, setItems = True\<rparr>
      else
        \<lparr>form = reset fs (s\<lparr>items := items s @ [\<lparr>entry_id = uuid n, data = d\<rparr>],
                             showModal := False\<rparr>),
         seed = Suc n, setItems = True\<rparr>)"

definition handleSubmit :: "'d form_spec \<Rightarrow> nat \<Rightarrow> 'd form_state \<Rightarrow> 'd reaction" where
  "handleSubmit fs n s =
     (let errs = schema fs (formValues s) in
      if errs = [] then handleFormSubmit fs n (s\<lparr>errors := []\<rparr>) (formValues s)
      else quiet n (s\<lparr>errors := errs\<rparr>))"

definition onEdit :: "string \<Rightarrow> 'd form_state \<Rightarrow> 'd form_state" where
  "onEdit x s =
     (case find (\<lambda>sn. entry_id sn = x) (items s) of
        None \<Rightarrow> s
      | Some award \<Rightarrow> s\<lparr>currentId := entry_id award, formValues := data award, showModal := True\<rparr>)"

definition closeModal :: "'d form_spec \<Rightarrow> 'd form_state \<Rightarrow> 'd form_state" where
  "closeModal fs s = reset fs (s\<lparr>showModal := False\<rparr>)"

definition handleDelete :: "string \<Rightarrow> 'd form_state \<Rightarrow> 'd form_state" where
  "handleDelete x s = s\<lparr>items := filter (\<lambda>project. entry_id project \<noteq> x) (items s)\<rparr>"

definition onAdd :: "'d form_state \<Rightarrow> 'd form_state" where
  "onAdd s = s\<lparr>showModal := True\<rparr>"

declare quiet_def [handler_defs] reset_def [handler_defs] handleFormSubmit_def [handler_defs]
  handleSubmit_def [handler_defs] onEdit_def [handler_defs] closeModal_def [handler_defs]
  handleDelete_def [handler_defs] onAdd_def [handler_defs]

text \<open>
  The JSX wires the handlers to the UI: \<open>CrudList\<close>'s \<open>onAdd\<close>, \<open>onEdit\<close> and
  \<open>onDelete\<close>, the modal's close control and \<open>Close\<close> button (\<open>closeModal\<close>), typing
  into the registered inputs (\<open>Input\<close>, a new vector of field values) and the form's
  submit (\<open>handleSubmit(handleFormSubmit)\<close>).
\<close>

fun form_step :: "'d form_spec \<Rightarrow> nat \<Rightarrow> 'd form_state \<Rightarrow> 'd event \<Rightarrow> 'd reaction" where
  "form_step fs n s OnAdd = quiet n (onAdd s)"
| "form_step fs n s (OnEdit x) = quiet n (onEdit x s)"
| "form_step fs n s (OnDelete x) = \<lparr>form = handleDelete x s, seed = n, setItems = True\<rparr>"
| "form_step fs n s OnCloseModal = quiet n (closeModal fs s)"
| "form_step fs n s (Input d) = quiet n (s\<lparr>formValues := d\<rparr>)"
| "form_step fs n s Submit = handleSubmit fs n s"

text \<open>
  Which events the UI can deliver: the list's buttons while the modal is closed, the
  modal's inputs and buttons while it is open (the modal covers the list).
\<close>

fun enabled :: "'d form_state \<Rightarrow> 'd event \<Rightarrow> bool" where
  "enabled s OnAdd = (\<not> showModal s)"
| "enabled s (OnEdit x) = (\<not> showModal s)"
| "enabled s (OnDelete x) = (\<not> showModal s)"
| "enabled s OnCloseModal = showModal s"
| "enabled s (Input d) = showModal s"
| "enabled s Submit = showModal s"

text \<open>
  A run of UI events from a state, with the list of snapshots the \<open>useEffect\<close> writes
  to the resume context; \<open>None\<close> when an event is not one the UI can deliver there.
\<close>

fun form_run :: "'d form_spec \<Rightarrow> nat \<Rightarrow> 'd form_state \<Rightarrow> 'd event list
                 \<Rightarrow> (nat \<times> 'd form_state \<times> 'd entry list list) option" where
  "form_run fs n s [] = Some (n, s, [])"
| "form_run fs n s (e # es) =
     (if enabled s e then
        (let r = form_step fs n s e in
         case form_run fs (seed r) (form r) es of
           None \<Rightarrow> None
         | Some (n', s', ws) \<Rightarrow> Some (n', s', (if setItems r then [items (form r)] else []) @ ws))
      else None)"

text \<open>
  The states a form reaches from its initial state. The id counter is global, so other
  forms may advance it between two steps of this one (rule \<open>other\<close>).
\<close>

inductive reachable :: "'d form_spec \<Rightarrow> nat \<Rightarrow> 'd form_state \<Rightarrow> bool" for fs where
  init: "reachable fs n (init_form fs)"
| step: "reachable fs n s \<Longrightarrow> enabled s e \<Longrightarrow> reachable fs (seed (form_step fs n s e)) (form (form_step fs n s e))"
| other: "reachable fs n s \<Longrightarrow> n \<le> m \<Longrightarrow> reachable fs m s"

definition ids :: "'d entry list \<Rightarrow> string list" where
  "ids xs = map entry_id xs"

definition form_inv :: "'d form_spec \<Rightarrow> nat \<Rightarrow> 'd form_state \<Rightarrow> bool" where
  "form_inv fs n s \<longleftrightarrow>
     distinct (ids (items s)) \<and>
     list_all (\<lambda>a. issued n (entry_id a)) (items s) \<and>
     (currentId s = [] \<or> issued n (currentId s)) \<and>
     (showModal s \<or> formValues s = blank fs \<and> errors s = [])"

text \<open>
  Spec section 3 describes the collection as records identified by their ids. Its abstract
  view is the finite map from ids to field values, and the controller's operations are
  map updates: create binds a fresh id, edit rebinds the edited id (if it is still there),
  delete unbinds one.
\<close>

definition abs_items :: "'d entry list \<Rightarrow> (string \<rightharpoonup> 'd)" where
  "abs_items xs = map_of (map (\<lambda>a. (entry_id a, data a)) xs)"

datatype 'd coll_op = Create string 'd | Replace string 'd | Remove string | Keep

fun apply_coll_op :: "(string \<rightharpoonup> 'd) \<Rightarrow> 'd coll_op \<Rightarrow> (string \<rightharpoonup> 'd)" where
  "apply_coll_op m (Create x d) = m(x \<mapsto> d)"
| "apply_coll_op m (Replace x d) = (if x \<in> dom m then m(x \<mapsto> d) else m)"
| "apply_coll_op m (Remove x) = m(x := None)"
| "apply_coll_op m Keep = m"

fun intent :: "'d form_spec \<Rightarrow> nat \<Rightarrow> 'd form_state \<Rightarrow> 'd event \<Rightarrow> 'd coll_op" where
  "intent fs n s Submit =
     (if schema fs (formValues s) \<noteq> [] then Keep
      else if currentId s = [] then Create (uuid n) (formValues s)
      else Replace (currentId s) (formValues s))"
| "intent fs n s (OnDelete x) = Remove x"
| "intent fs n s _ = Keep"

subsection \<open>Frame facts shared by the proofs\<close>

lemma ids_append [simp]: "ids (xs @ ys) = ids xs @ ids ys"
  by (simp add: ids_def)

lemma ids_Cons [simp]: "ids (a # xs) = entry_id a # ids xs"
  by (simp add: ids_def)

lemma ids_Nil [simp]: "ids [] = []"
  by (simp add: ids_def)

lemma set_ids: "set (ids xs) = entry_id ` set xs"
  by (simp add: ids_def)

lemma ids_update [simp]:
  "ids (map (\<lambda>award. if entry_id award = x then \<lparr>entry_id = entry_id award, data = d\<rparr> else award) xs) = ids xs"
  by (induction xs) simp_all

lemma list_all_issued_update [simp]:
  "list_all (\<lambda>a. issued n (entry_id a))
     (map (\<lambda>award. if entry_id award = x then \<lparr>entry_id = entry_id award, data = d\<rparr> else award) xs) =
   list_all (\<lambda>a. issued n (entry_id a)) xs"
  by (induction xs) simp_all

lemma issued_fresh_not_in:
  "list_all (\<lambda>a. issued n (entry_id a)) xs \<Longrightarrow> uuid n \<notin> set (ids xs)"
  unfolding list_all_iff set_ids by (metis image_iff not_issued_self)

lemma form_step_seed_mono: "n \<le> seed (form_step fs n s e)"
  by (cases e) (simp_all add: handler_defs Let_def)

subsection \<open>The invariant\<close>

lemma form_inv_mono: "form_inv fs n s \<Longrightarrow> n \<le> m \<Longrightarrow> form_inv fs m s"
  by (auto simp: form_inv_def list_all_iff intro: issued_mono)

lemma form_inv_init: "form_inv fs n (init_form fs)"
  by (simp add: form_inv_def init_form_def)

lemma handleFormSubmit_inv:
  assumes "form_inv fs n s"
  shows "form_inv fs (seed (handleFormSubmit fs n s d)) (form (handleFormSubmit fs n s d))"
proof (cases "currentId s = []")
  case True
  from assms have "uuid n \<notin> set (ids (items s))"
    by (simp add: form_inv_def issued_fresh_not_in)
  with assms True show ?thesis
    by (auto simp: form_inv_def handleFormSubmit_def reset_def list_all_iff)
next
  case False
  with assms show ?thesis
    by (simp add: form_inv_def handleFormSubmit_def reset_def)
qed

lemma onEdit_inv:
  assumes "form_inv fs n s"
  shows "form_inv fs n (onEdit x s)"
proof (cases "find (\<lambda>sn. entry_id sn = x) (items s)")
  case None
  with assms show ?thesis by (simp add: onEdit_def)
next
  case (Some a)
  then have "a \<in> set (items s)" by (auto dest: keyed_find_Some)
  with assms Some show ?thesis
    by (auto simp: form_inv_def onEdit_def list_all_iff)
qed

lemma form_step_inv:
  assumes "form_inv fs n s" and "enabled s e"
  shows "form_inv fs (seed (form_step fs n s e)) (form (form_step fs n s e))"
proof (cases e)
  case Submit
  show ?thesis
  proof (cases "schema fs (formValues s) = []")
    case True
    from assms(1) have "form_inv fs n (s\<lparr>errors := []\<rparr>)"
      by (auto simp: form_inv_def)
    then have "form_inv fs (seed (handleFormSubmit fs n (s\<lparr>errors := []\<rparr>) (formValues s)))
                 (form (handleFormSubmit fs n (s\<lparr>errors := []\<rparr>) (formValues s)))"
      by (rule handleFormSubmit_inv)
    with Submit True show ?thesis by (simp add: handleSubmit_def)
  next
    case False
    from assms(2) Submit have "showModal s" by simp
    with assms(1) False Submit show ?thesis
      by (simp add: form_inv_def handleSubmit_def quiet_def)
  qed
next
  case (OnEdit x)
  with assms(1) show ?thesis by (simp add: quiet_def onEdit_inv)
next
  case (OnDelete x)
  with assms(1) show ?thesis
    unfolding form_inv_def by (simp add: handleDelete_def list_all_iff ids_def distinct_map_filter)
qed (use assms in \<open>auto simp: form_inv_def handler_defs\<close>)

text \<open>C4. In every state a form reaches through UI events, record ids are pairwise distinct and all issued by the generator, currentId is empty or an issued id, and while the modal is closed the inputs are blank and there are no errors.\<close>

theorem reachable_form_inv: "reachable fs n s \<Longrightarrow> form_inv fs n s"
proof (induction rule: reachable.induct)
  case (init n)
  show ?case by (rule form_inv_init)
next
  case (step n s e)
  from step.IH step.hyps(2) show ?case by (rule form_step_inv)
next
  case (other n s m)
  from other.IH other.hyps(2) show ?case by (rule form_inv_mono)
qed

subsection \<open>Submit\<close>

text \<open>
  C1. Submitting in create mode (\<open>currentId\<close> is the empty string) with values the schema
  accepts appends one record with a fresh id at the end, closes the modal and clears the
  inputs.
\<close>

theorem submit_appends:
  assumes inv: "form_inv fs n s" and create: "currentId s = []"
    and valid: "schema fs (formValues s) = []"
  shows "items (form (handleSubmit fs n s)) = items s @ [\<lparr>entry_id = uuid n, data = formValues s\<rparr>] \<and>
         uuid n \<notin> set (ids (items s)) \<and>
         currentId (form (handleSubmit fs n s)) = [] \<and> \<not> showModal (form (handleSubmit fs n s)) \<and>
         formValues (form (handleSubmit fs n s)) = blank fs \<and>
         seed (handleSubmit fs n s) = Suc n \<and> setItems (handleSubmit fs n s)"
proof -
  from inv have "uuid n \<notin> set (ids (items s))"
    by (simp add: form_inv_def issued_fresh_not_in)
  with create valid show ?thesis
    by (simp add: handleSubmit_def handleFormSubmit_def reset_def)
qed

text \<open>
  C2. Submitting in edit mode replaces the record whose id is \<open>currentId\<close> in place: the
  records before and after it are untouched, the id is kept, the fields are the submitted
  ones, and the form goes back to create mode.
\<close>

theorem submit_replaces_in_place:
  assumes split: "items s = ys @ a # zs" and dist: "distinct (ids (items s))"
    and edit: "currentId s = entry_id a" "entry_id a \<noteq> []"
    and valid: "schema fs (formValues s) = []"
  shows "items (form (handleSubmit fs n s)) = ys @ \<lparr>entry_id = entry_id a, data = formValues s\<rparr> # zs \<and>
         currentId (form (handleSubmit fs n s)) = [] \<and> \<not> showModal (form (handleSubmit fs n s)) \<and>
         formValues (form (handleSubmit fs n s)) = blank fs \<and>
         seed (handleSubmit fs n s) = n \<and> setItems (handleSubmit fs n s)"
proof -
  from split dist have "distinct (map entry_id (ys @ a # zs))" by (simp add: ids_def)
  then have "map (\<lambda>award. if entry_id award = entry_id a
                  then \<lparr>entry_id = entry_id award, data = formValues s\<rparr> else award) (ys @ a # zs) =
             ys @ \<lparr>entry_id = entry_id a, data = formValues s\<rparr> # zs"
    by (rule keyed_update_split) simp
  with split edit valid show ?thesis
    by (simp add: handleSubmit_def handleFormSubmit_def reset_def)
qed

text \<open>
  C3. Submitting with values the schema rejects records the errors and changes nothing else:
  no record is added or replaced and no snapshot is written.
\<close>

theorem submit_invalid:
  assumes "schema fs (formValues s) \<noteq> []"
  shows "handleSubmit fs n s = \<lparr>form = s\<lparr>errors := schema fs (formValues s)\<rparr>, seed = n, setItems = False\<rparr>"
  using assms by (simp add: handleSubmit_def quiet_def)

text \<open>
  C11. Submitting in edit mode when the record being edited is gone (it was deleted after the
  edit was cancelled) discards the submitted values: the list is written back unchanged.
\<close>

theorem submit_stale_edit_discards:
  assumes edit: "currentId s \<noteq> []" and gone: "currentId s \<notin> set (ids (items s))"
    and valid: "schema fs (formValues s) = []"
  shows "items (form (handleSubmit fs n s)) = items s \<and> currentId (form (handleSubmit fs n s)) = [] \<and>
         \<not> showModal (form (handleSubmit fs n s)) \<and> setItems (handleSubmit fs n s)"
proof -
  from gone have "currentId s \<notin> entry_id ` set (items s)" by (simp add: set_ids)
  with edit valid show ?thesis
    by (simp add: handleSubmit_def handleFormSubmit_def reset_def keyed_update_absent)
qed

subsection \<open>Edit, delete, close\<close>

text \<open>C9. Clicking edit for an id not in the list changes nothing: the modal stays closed, no session is opened and nothing is written.\<close>

theorem onEdit_absent:
  assumes "x \<notin> set (ids (items s))"
  shows "form_step fs n s (OnEdit x) = \<lparr>form = s, seed = n, setItems = False\<rparr>"
proof -
  from assms have "find (\<lambda>sn. entry_id sn = x) (items s) = None"
    by (simp add: keyed_find_None set_ids)
  then show ?thesis by (simp add: onEdit_def quiet_def)
qed

text \<open>C10. Clicking edit for a present id opens the modal in edit mode for that id with the inputs pre-filled with the record's fields.\<close>

theorem onEdit_present:
  assumes split: "items s = ys @ a # zs" and dist: "distinct (ids (items s))" and key: "entry_id a = x"
  shows "onEdit x s = s\<lparr>currentId := x, formValues := data a, showModal := True\<rparr>"
proof -
  from split dist have "distinct (map entry_id (ys @ a # zs))" by (simp add: ids_def)
  then have "find (\<lambda>sn. entry_id sn = x) (ys @ a # zs) = Some a"
    using key by (rule keyed_find_split)
  with split key show ?thesis by (simp add: onEdit_def)
qed

text \<open>C8. Deleting a present id removes exactly that record and keeps the order of the others.\<close>

theorem handleDelete_removes:
  assumes split: "items s = ys @ a # zs" and dist: "distinct (ids (items s))" and key: "entry_id a = x"
  shows "items (handleDelete x s) = ys @ zs"
proof -
  from split dist have "distinct (map entry_id (ys @ a # zs))" by (simp add: ids_def)
  then have "filter (\<lambda>b. entry_id b \<noteq> x) (ys @ a # zs) = ys @ zs"
    using key by (rule keyed_filter_split)
  with split show ?thesis by (simp add: handleDelete_def)
qed

text \<open>C12. Deleting an id that is not in the list leaves the state unchanged.\<close>

theorem handleDelete_absent:
  assumes "x \<notin> set (ids (items s))"
  shows "handleDelete x s = s"
  using assms by (simp add: handleDelete_def keyed_filter_absent set_ids)

subsection \<open>Synchronisation with the resume context\<close>

text \<open>
  C7. The item setter is called, and so the \<open>useEffect\<close> writes a snapshot, exactly on a
  delete and on a submit the schema accepts.
\<close>

theorem setItems_iff:
  "setItems (form_step fs n s e) =
   (case e of OnDelete x \<Rightarrow> True | Submit \<Rightarrow> schema fs (formValues s) = [] | _ \<Rightarrow> False)"
  by (cases e) (simp_all add: handler_defs Let_def)

lemma quiet_step_items:
  "\<not> setItems (form_step fs n s e) \<Longrightarrow> items (form (form_step fs n s e)) = items s"
  by (cases e) (auto simp: handler_defs Let_def split: option.splits)

text \<open>
  C5. After any run of UI events the last snapshot written (or, if none was, the list the run
  started from) is the form's current list: the context never lags behind the form.
\<close>

theorem form_run_synced:
  "form_run fs n s es = Some (n', s', ws) \<Longrightarrow> items s' = last (items s # ws)"
proof (induction es arbitrary: n s ws)
  case Nil
  then show ?case by simp
next
  case (Cons e es)
  let ?r = "form_step fs n s e"
  from Cons.prems obtain ws' where en: "enabled s e"
    and rest: "form_run fs (seed ?r) (form ?r) es = Some (n', s', ws')"
    and ws: "ws = (if setItems ?r then [items (form ?r)] else []) @ ws'"
    by (auto simp: Let_def split: if_splits option.splits)
  from rest have IH: "items s' = last (items (form ?r) # ws')" by (rule Cons.IH)
  show ?case
  proof (cases "setItems ?r")
    case True
    with IH ws show ?thesis by (cases ws') simp_all
  next
    case False
    then have "items (form ?r) = items s" by (rule quiet_step_items)
    with IH ws False show ?thesis by (cases ws') simp_all
  qed
qed

subsection \<open>Refinement of an abstract collection\<close>

lemma dom_abs_items [simp]: "dom (abs_items xs) = set (ids xs)"
  by (force simp: abs_items_def ids_def dom_map_of_conv_image_fst)

lemma abs_items_snoc [simp]:
  "x \<notin> set (ids xs) \<Longrightarrow> abs_items (xs @ [\<lparr>entry_id = x, data = d\<rparr>]) = (abs_items xs)(x \<mapsto> d)"
  by (induction xs) (auto simp: abs_items_def fun_eq_iff)

lemma abs_items_update:
  "x \<in> set (ids xs) \<Longrightarrow>
   abs_items (map (\<lambda>award. if entry_id award = x then \<lparr>entry_id = entry_id award, data = d\<rparr> else award) xs) =
   (abs_items xs)(x \<mapsto> d)"
  unfolding abs_items_def by (rule map_of_keyed_update) (simp_all add: set_ids)

lemma abs_items_filter:
  "distinct (ids xs) \<Longrightarrow> abs_items (filter (\<lambda>a. entry_id a \<noteq> x) xs) = (abs_items xs)(x := None)"
  unfolding abs_items_def ids_def by (rule map_of_keyed_filter)

text \<open>C6. Viewed as a finite map from ids to field values, every step of the controller performs the abstract collection operation: create binds a fresh id, edit rebinds the edited id if present, delete unbinds the id, every other event leaves the map unchanged.\<close>

theorem form_step_refines:
  assumes inv: "form_inv fs n s"
  shows "abs_items (items (form (form_step fs n s e))) = apply_coll_op (abs_items (items s)) (intent fs n s e)"
proof (cases e)
  case Submit
  from inv have fresh: "uuid n \<notin> set (ids (items s))" and dist: "distinct (ids (items s))"
    by (simp_all add: form_inv_def issued_fresh_not_in)
  show ?thesis
  proof (cases "schema fs (formValues s) = [] \<and> currentId s \<noteq> [] \<and> currentId s \<in> set (ids (items s))")
    case True
    with Submit show ?thesis
      by (simp add: handleSubmit_def handleFormSubmit_def reset_def abs_items_update)
  next
    case False
    with Submit fresh show ?thesis
      by (auto simp: handleSubmit_def handleFormSubmit_def reset_def quiet_def set_ids keyed_update_absent)
  qed
next
  case (OnDelete x)
  from inv have "distinct (ids (items s))" by (simp add: form_inv_def)
  with OnDelete show ?thesis by (simp add: handleDelete_def abs_items_filter)
qed (simp_all add: handler_defs split: option.splits)

end
