(* ===== verification/Certifications_Form.thy ===== *)
theory Certifications_Form
  imports Crud_Form
begin

text \<open>
  \<open>src/components/FormSidebar/CertificationsForm/index.tsx\<close>: the form data of a
  certification, its yup schema (title, issuer and date required, summary optional) and
  the form's instance of the generic controller of \<open>Crud_Form\<close>. The theorems check
  the schema and run the scenarios of spec section 8 through the controller, including the
  two runs in which the code departs from the spec.
\<close>

record cert_data =
  title :: string
  issuer :: string
  date :: string
  summary :: string

definition cert_schema :: "cert_data \<Rightarrow> field_errors" where
  "cert_schema d = required ''title'' (title d) @ required ''issuer'' (issuer d) @ required ''date'' (date d)"

definition cert_blank :: cert_data where
  "cert_blank = \<lparr>title = [], issuer = [], date = [], summary = []\<rparr>"

definition cert_form :: "cert_data form_spec" where
  "cert_form = \<lparr>schema = cert_schema, blank = cert_blank\<rparr>"

definition aws_cert :: cert_data where
  "aws_cert = \<lparr>title = ''AWS Cert'', issuer = ''Amazon'', date = ''2024-01-01'', summary = []\<rparr>"

definition aws_cert_pro :: cert_data where
  "aws_cert_pro = \<lparr>title = ''AWS Cert Pro'', issuer = ''Amazon'', date = ''2024-01-01'', summary = []\<rparr>"

definition gcp_cert :: cert_data where
  "gcp_cert = \<lparr>title = ''GCP Cert'', issuer = ''Google'', date = ''2024-06-01'', summary = []\<rparr>"

definition cert_adding :: "cert_data form_state" where
  "cert_adding = (init_form cert_form)\<lparr>showModal := True, formValues := aws_cert\<rparr>"

definition cert_editing :: "cert_data form_state" where
  "cert_editing = \<lparr>showModal = True, currentId = uuid 0,
                   items = [\<lparr>entry_id = uuid 0, data = aws_cert\<rparr>],
                   formValues = aws_cert_pro, errors = []\<rparr>"

definition cert_stale :: "cert_data form_state" where
  "cert_stale = \<lparr>showModal = True, currentId = uuid 0, items = [], formValues = gcp_cert, errors = []\<rparr>"

definition cert_two :: "cert_data form_state" where
  "cert_two = \<lparr>showModal = False, currentId = [],
               items = [\<lparr>entry_id = uuid 0, data = aws_cert\<rparr>, \<lparr>entry_id = uuid 1, data = gcp_cert\<rparr>],
               formValues = cert_blank, errors = []\<rparr>"

lemmas cert_examples = aws_cert_def aws_cert_pro_def gcp_cert_def
lemmas cert_states = cert_adding_def cert_editing_def cert_stale_def cert_two_def init_form_def

lemma cert_form_simps [simp]: "schema cert_form = cert_schema" "blank cert_form = cert_blank"
  by (simp_all add: cert_form_def)

lemma cert_schema_examples [simp]:
  "cert_schema aws_cert = []" "cert_schema aws_cert_pro = []" "cert_schema gcp_cert = []"
  by (simp_all add: cert_schema_def required_def cert_examples)

text \<open>
  C13. The schema accepts exactly the values whose title, issuer and date are non-empty; it
  reports one error per empty required field, each under a different field name.
\<close>

theorem cert_schema_spec:
  "(cert_schema d = []) = (title d \<noteq> [] \<and> issuer d \<noteq> [] \<and> date d \<noteq> []) \<and>
   length (cert_schema d) = length (filter (\<lambda>v. v = []) [title d, issuer d, date d]) \<and>
   distinct (map fst (cert_schema d))"
  by (simp add: cert_schema_def required_def)

text \<open>
  A run of spec section 8's end-to-end scenario, with the snapshots written to the context.\<close>

theorem cert_end_to_end:
  "form_run cert_form 0 (init_form cert_form)
     [OnAdd, Input aws_cert, Submit, OnEdit (uuid 0), Input aws_cert_pro, Submit, OnDelete (uuid 0)] =
   Some (1, init_form cert_form,
         [[\<lparr>entry_id = uuid 0, data = aws_cert\<rparr>], [\<lparr>entry_id = uuid 0, data = aws_cert_pro\<rparr>], []])"
  by (simp add: init_form_def handler_defs cert_blank_def)

text \<open>
  A concrete run of the cancelled-edit behaviour that \<open>cancel_edit_breaks_simulation\<close>
  (in \<open>Edit_Session\<close>) proves in general. Cancelling an edit leaves \<open>currentId\<close> set (\<open>closeModal\<close> only hides the modal and
  resets the inputs), so the next "add" is submitted in edit mode and overwrites the record
  whose edit was cancelled instead of appending a second one.
\<close>

theorem cert_cancelled_edit_then_add_overwrites:
  "form_run cert_form 0 (init_form cert_form)
     [OnAdd, Input aws_cert, Submit, OnEdit (uuid 0), OnCloseModal, OnAdd, Input gcp_cert, Submit] =
   Some (1, (init_form cert_form)\<lparr>items := [\<lparr>entry_id = uuid 0, data = gcp_cert\<rparr>]\<rparr>,
         [[\<lparr>entry_id = uuid 0, data = aws_cert\<rparr>], [\<lparr>entry_id = uuid 0, data = gcp_cert\<rparr>]])"
  by (simp add: init_form_def handler_defs cert_blank_def)

text \<open>
  A concrete run of the stale-edit case that \<open>submit_stale_edit_discards\<close> proves in
  general. Cancelling an edit and then deleting the record leaves a dangling \<open>currentId\<close>; the
  next "add" is then silently dropped.
\<close>

theorem cert_stale_edit_drops_add:
  "form_run cert_form 0 (init_form cert_form)
     [OnAdd, Input aws_cert, Submit, OnEdit (uuid 0), OnCloseModal, OnDelete (uuid 0),
      OnAdd, Input gcp_cert, Submit] =
   Some (1, init_form cert_form, [[\<lparr>entry_id = uuid 0, data = aws_cert\<rparr>], [], []])"
  by (simp add: init_form_def handler_defs cert_blank_def)

subsection \<open>The controller's theorems at concrete certifications\<close>

theorem submit_appends_witness:
  "form_inv cert_form 0 cert_adding \<and> currentId cert_adding = [] \<and>
   schema cert_form (formValues cert_adding) = [] \<and>
   items (form (handleSubmit cert_form 0 cert_adding)) = [\<lparr>entry_id = uuid 0, data = aws_cert\<rparr>]"
proof -
  have h: "form_inv cert_form 0 cert_adding" "currentId cert_adding = []"
    "schema cert_form (formValues cert_adding) = []"
    by (simp_all add: form_inv_def cert_states)
  from submit_appends [OF h] h show ?thesis by (simp add: cert_states)
qed

theorem submit_replaces_in_place_witness:
  "items (form (handleSubmit cert_form 0 cert_editing)) = [\<lparr>entry_id = uuid 0, data = aws_cert_pro\<rparr>] \<and>
   currentId (form (handleSubmit cert_form 0 cert_editing)) = []"
proof -
  have h: "items cert_editing = [] @ \<lparr>entry_id = uuid 0, data = aws_cert\<rparr> # []"
    "distinct (ids (items cert_editing))"
    "currentId cert_editing = entry_id \<lparr>entry_id = uuid 0, data = aws_cert\<rparr>"
    "entry_id \<lparr>entry_id = uuid 0, data = aws_cert\<rparr> \<noteq> []"
    "schema cert_form (formValues cert_editing) = []"
    by (simp_all add: cert_states)
  from submit_replaces_in_place [OF h] show ?thesis by (simp add: cert_states)
qed

theorem submit_invalid_witness:
  "errors (form (handleSubmit cert_form 0 (init_form cert_form))) =
     [(''title'', required_message), (''issuer'', required_message), (''date'', required_message)] \<and>
   \<not> setItems (handleSubmit cert_form 0 (init_form cert_form))"
proof -
  have h: "schema cert_form (formValues (init_form cert_form)) \<noteq> []"
    by (simp add: init_form_def cert_schema_def cert_blank_def required_def)
  from submit_invalid [OF h] show ?thesis
    by (simp add: init_form_def cert_schema_def cert_blank_def required_def)
qed

theorem submit_stale_edit_discards_witness:
  "items (form (handleSubmit cert_form 0 cert_stale)) = [] \<and> setItems (handleSubmit cert_form 0 cert_stale)"
proof -
  have h: "currentId cert_stale \<noteq> []" "currentId cert_stale \<notin> set (ids (items cert_stale))"
    "schema cert_form (formValues cert_stale) = []"
    by (simp_all add: cert_states)
  from submit_stale_edit_discards [OF h] show ?thesis by (simp add: cert_states)
qed

theorem onEdit_absent_witness:
  "form_step cert_form 2 cert_two (OnEdit (uuid 7)) = \<lparr>form = cert_two, seed = 2, setItems = False\<rparr>"
proof -
  have h: "uuid 7 \<notin> set (ids (items cert_two))" by (simp add: cert_states)
  from onEdit_absent [OF h] show ?thesis .
qed

theorem onEdit_present_witness:
  "showModal (onEdit (uuid 0) cert_two) \<and> currentId (onEdit (uuid 0) cert_two) = uuid 0 \<and>
   formValues (onEdit (uuid 0) cert_two) = aws_cert"
proof -
  have h: "items cert_two = [] @ \<lparr>entry_id = uuid 0, data = aws_cert\<rparr> # [\<lparr>entry_id = uuid 1, data = gcp_cert\<rparr>]"
    "distinct (ids (items cert_two))" "entry_id \<lparr>entry_id = uuid 0, data = aws_cert\<rparr> = uuid 0"
    by (simp_all add: cert_states)
  from onEdit_present [OF h] show ?thesis by simp
qed

theorem handleDelete_removes_witness:
  "items (handleDelete (uuid 1) cert_two) = [\<lparr>entry_id = uuid 0, data = aws_cert\<rparr>]"
proof -
  have h: "items cert_two = [\<lparr>entry_id = uuid 0, data = aws_cert\<rparr>] @ \<lparr>entry_id = uuid 1, data = gcp_cert\<rparr> # []"
    "distinct (ids (items cert_two))" "entry_id \<lparr>entry_id = uuid 1, data = gcp_cert\<rparr> = uuid 1"
    by (simp_all add: cert_states)
  from handleDelete_removes [OF h] show ?thesis by simp
qed

theorem handleDelete_absent_witness: "handleDelete (uuid 7) cert_two = cert_two"
proof -
  have h: "uuid 7 \<notin> set (ids (items cert_two))" by (simp add: cert_states)
  from handleDelete_absent [OF h] show ?thesis .
qed

theorem form_run_synced_witness:
  "form_run cert_form 0 (init_form cert_form) [OnAdd, Input aws_cert, Submit] =
     Some (1, (init_form cert_form)\<lparr>items := [\<lparr>entry_id = uuid 0, data = aws_cert\<rparr>]\<rparr>,
           [[\<lparr>entry_id = uuid 0, data = aws_cert\<rparr>]]) \<and>
   items ((init_form cert_form)\<lparr>items := [\<lparr>entry_id = uuid 0, data = aws_cert\<rparr>]\<rparr>) =
     last (items (init_form cert_form) # [[\<lparr>entry_id = uuid 0, data = aws_cert\<rparr>]])"
proof -
  have h: "form_run cert_form 0 (init_form cert_form) [OnAdd, Input aws_cert, Submit] =
     Some (1, (init_form cert_form)\<lparr>items := [\<lparr>entry_id = uuid 0, data = aws_cert\<rparr>]\<rparr>,
           [[\<lparr>entry_id = uuid 0, data = aws_cert\<rparr>]])"
    by (simp add: init_form_def handler_defs cert_blank_def)
  from h form_run_synced [OF h] show ?thesis by simp
qed

theorem form_step_refines_witness:
  "abs_items (items (form (form_step cert_form 1 cert_editing Submit))) = [uuid 0 \<mapsto> aws_cert_pro]"
proof -
  have h: "form_inv cert_form 1 cert_editing"
    by (simp add: form_inv_def cert_states issued_def)
  have "intent cert_form 1 cert_editing Submit = Replace (uuid 0) aws_cert_pro"
    by (simp add: cert_states)
  with form_step_refines [OF h, of Submit] show ?thesis
    by (simp add: cert_states abs_items_def)
qed

theorem reachable_form_inv_witness: "form_inv cert_form 0 (init_form cert_form)"
  using reachable_form_inv [OF reachable.init] .

end
