(* ===== verification/Work_Experience_Form.thy ===== *)
theory Work_Experience_Form
  imports Crud_Form
begin

text \<open>
  \<open>src/components/FormSidebar/WorkExperienceForm/index.tsx\<close>: the form data of a job,
  its yup schema (company, position, start and end date required; website and summary
  optional) and the form's instance of the generic controller. Its handlers
  \<open>onSubmit\<close>, \<open>onEdit\<close>, \<open>closeModal\<close> and \<open>deleteNetwork\<close> are, up to names,
  the certification form's, so they are the controller's handlers at this form's schema,
  and every theorem of \<open>Crud_Form\<close> applies to this form.
\<close>

record work_data =
  company :: string
  position :: string
  website :: string
  startDate :: string
  endDate :: string
  summary :: string

definition work_schema :: "work_data \<Rightarrow> field_errors" where
  "work_schema d =
     required ''company'' (company d) @ required ''position'' (position d) @
     required ''startDate'' (startDate d) @ required ''endDate'' (endDate d)"

definition work_blank :: work_data where
  "work_blank = \<lparr>company = [], position = [], website = [], startDate = [], endDate = [], summary = []\<rparr>"

definition work_form :: "work_data form_spec" where
  "work_form = \<lparr>schema = work_schema, blank = work_blank\<rparr>"

definition onSubmit :: "nat \<Rightarrow> work_data form_state \<Rightarrow> work_data \<Rightarrow> work_data reaction" where
  "onSubmit = handleFormSubmit work_form"

definition deleteNetwork :: "string \<Rightarrow> work_data form_state \<Rightarrow> work_data form_state" where
  "deleteNetwork = handleDelete"

definition work_step :: "nat \<Rightarrow> work_data form_state \<Rightarrow> work_data event \<Rightarrow> work_data reaction" where
  "work_step = form_step work_form"

definition acme_job :: work_data where
  "acme_job = \<lparr>company = ''ACME'', position = ''Engineer'', website = [],
               startDate = ''2020-01-01'', endDate = ''2023-12-31'', summary = []\<rparr>"

lemma work_form_simps [simp]: "schema work_form = work_schema" "blank work_form = work_blank"
  by (simp_all add: work_form_def)

text \<open>
  C14. The schema accepts exactly the values whose company, position, start and end date are
  non-empty. The website input is rendered with \<open>errors.website?.message\<close>, but no
  rule of the schema names it, so it never shows an error.
\<close>

theorem work_schema_spec:
  "(work_schema d = []) = (company d \<noteq> [] \<and> position d \<noteq> [] \<and> startDate d \<noteq> [] \<and> endDate d \<noteq> []) \<and>
   length (work_schema d) = length (filter (\<lambda>v. v = []) [company d, position d, startDate d, endDate d]) \<and>
   ''website'' \<notin> fst ` set (work_schema d)"
  by (simp add: work_schema_def required_def)

theorem work_add_then_delete:
  "form_run work_form 3 (init_form work_form) [OnAdd, Input acme_job, Submit, OnDelete (uuid 3)] =
   Some (4, init_form work_form, [[\<lparr>entry_id = uuid 3, data = acme_job\<rparr>], []])"
  by (simp add: init_form_def handler_defs work_blank_def work_schema_def required_def acme_job_def)

end
