(* ===== verification/Resume_Context.thy ===== *)
theory Resume_Context
  imports Certifications_Form Work_Experience_Form
begin

text \<open>
  The shared resume state of \<open>@/contexts/Resume\<close> (\<open>useResume()\<close>), which is not part
  of the sources: a record with the fields the forms write, extensible (\<open>'x\<close>) by the
  fields they do not touch. \<open>updateState\<close> replaces the whole state (spec section 6:
  last write wins). Each form's \<open>useEffect\<close> calls it with
  \<open>{...contextState, field: value}\<close>: the context as the form read it during its last
  render, with the form's own field overwritten. These snapshots are \<open>cert_sync\<close> and
  \<open>work_sync\<close> here and \<open>contact_sync\<close> in \<open>Contact_Form\<close>.
\<close>

record resume =
  phoneNumber :: string
  website :: string
  email :: string
  certifications :: "cert_data entry list"
  workExperience :: "work_data entry list"

definition updateState :: "'x resume_scheme \<Rightarrow> 'x resume_scheme \<Rightarrow> 'x resume_scheme" where
  "updateState new old = new"

definition cert_sync :: "'x resume_scheme \<Rightarrow> cert_data entry list \<Rightarrow> 'x resume_scheme" where
  "cert_sync contextState cs = contextState\<lparr>certifications := cs\<rparr>"

definition work_sync :: "'x resume_scheme \<Rightarrow> work_data entry list \<Rightarrow> 'x resume_scheme" where
  "work_sync contextState xs = contextState\<lparr>workExperience := xs\<rparr>"

text \<open>
  Effects that run in the same commit read the same \<open>contextState\<close>. On mount every form's
  effect runs once, so \<open>mount_effects\<close> applies the writes, each computed from the one
  snapshot, in order.
\<close>

definition mount_effects :: "'x resume_scheme \<Rightarrow> ('x resume_scheme \<Rightarrow> 'x resume_scheme) list \<Rightarrow> 'x resume_scheme" where
  "mount_effects contextState effs = fold (\<lambda>eff acc. updateState (eff contextState) acc) effs contextState"

lemma mount_effects_last:
  "effs \<noteq> [] \<Longrightarrow> mount_effects c effs = last effs c"
  by (induction effs rule: rev_induct) (simp_all add: mount_effects_def updateState_def)


end
