(* ===== verification/Contact_Form.thy ===== *)
theory Contact_Form
  imports Resume_Context
begin

text \<open>
  \<open>src/components/FormSidebar/ContactForm/index.tsx\<close>: three controlled inputs
  (\<open>phoneNumber\<close>, \<open>website\<close>, \<open>email\<close>) in one \<open>useState\<close> object, a change
  handler keyed by the input's \<open>name\<close>, and an effect that copies the three fields into
  the resume context whenever the object changes. The handler always passes a new object,
  so the effect runs after every change. A \<open>name\<close> other than the three would add a key
  that nothing reads; the model leaves the three fields unchanged then.
\<close>

record contact_state =
  phoneNumber :: string
  website :: string
  email :: string

definition contact_init :: contact_state where
  "contact_init = \<lparr>phoneNumber = [], website = [], email = []\<rparr>"

definition contact_fields :: "string list" where
  "contact_fields = [''phoneNumber'', ''website'', ''email'']"

definition handleChange :: "string \<Rightarrow> string \<Rightarrow> contact_state \<Rightarrow> contact_state" where
  "handleChange name value state =
     (if name = ''phoneNumber'' then state\<lparr>phoneNumber := value\<rparr>
      else if name = ''website'' then state\<lparr>website := value\<rparr>
      else if name = ''email'' then state\<lparr>email := value\<rparr>
      else state)"

definition contact_sync :: "'x resume_scheme \<Rightarrow> contact_state \<Rightarrow> 'x resume_scheme" where
  "contact_sync contextState state =
     contextState\<lparr>resume.phoneNumber := phoneNumber state, resume.website := website state,
                  resume.email := email state\<rparr>"

definition contact_value :: "contact_state \<Rightarrow> string \<Rightarrow> string" where
  "contact_value state name =
     (if name = ''phoneNumber'' then phoneNumber state
      else if name = ''website'' then website state else email state)"
  \<comment> \<open>the \<open>value\<close> prop each input reads back\<close>

text \<open>
  C17. Typing into one of the three inputs changes the value that input shows and no other.
\<close>

theorem handleChange_spec:
  assumes "name \<in> set contact_fields" and "other \<in> set contact_fields"
  shows "contact_value (handleChange name v s) other = (if other = name then v else contact_value s other)"
  using assms by (auto simp: contact_fields_def contact_value_def handleChange_def)

end
