(* ===== verification/Effects.thy ===== *)
theory Effects
  imports Contact_Form
begin

text \<open>
  React's render and commit cycle for the three forms' \<open>useEffect\<close> mirrors. Each effect is
  declared with a dependency array: \<open>[state]\<close> in \<open>ContactForm\<close>, \<open>[certifications]\<close> in
  \<open>CertificationsForm\<close>, \<open>[experiences]\<close> in \<open>WorkExperienceForm\<close>. React reruns an
  effect after a commit only when a dependency is not \<open>Object.is\<close> to the value it last
  ran with. Every setter call of the forms passes a newly built object or array (a spread,
  \<open>map\<close> or \<open>filter\<close>), so a dependency's identity is a version counter (\<open>slot\<close>).
  \<open>bump\<close> is a setter call, \<open>mark\<close> is the effect recording what it ran with, and
  \<open>changed\<close> is React's comparison. Effects of one commit read the \<open>contextState\<close> of
  the render before it (\<open>snapshot\<close>), and run in the sidebar's order. Each
  \<open>updateState\<close> is a state update of the provider: it schedules one more render and
  commit (\<open>pending\<close>). \<open>settle\<close> is React's loop of render and commit until no update
  is pending. It is a \<open>partial_function (option)\<close>: a loop that never settles is
  \<open>None\<close>. \<open>sink_log\<close> records every write into the context, with the value written.
\<close>

datatype app_event =
    ContactInput string string
  | CertUI "cert_data event"
  | WorkUI "work_data event"

record slot =
  cur :: nat
  seen :: "nat option"

datatype sink_write =
    WriteContact contact_state
  | WriteCerts "cert_data entry list"
  | WriteWorks "work_data entry list"

record 'x runtime =
  provider :: "'x resume_scheme"
  snapshot :: "'x resume_scheme"
  rcontact :: contact_state
  rcerts :: "cert_data form_state"
  rworks :: "work_data form_state"
  rgen :: nat
  contact_dep :: slot
  certs_dep :: slot
  works_dep :: slot
  pending :: bool
  sink_log :: "sink_write list"

definition changed :: "slot \<Rightarrow> bool" where
  "changed d \<longleftrightarrow> seen d \<noteq> Some (cur d)"

definition bump :: "slot \<Rightarrow> slot" where
  "bump d = d\<lparr>cur := Suc (cur d)\<rparr>"

definition mark :: "slot \<Rightarrow> slot" where
  "mark d = d\<lparr>seen := Some (cur d)\<rparr>"

definition contact_effect :: "'x runtime \<Rightarrow> 'x runtime" where
  "contact_effect rt =
     (if changed (contact_dep rt) then
        rt\<lparr>provider := updateState (contact_sync (snapshot rt) (rcontact rt)) (provider rt),
           contact_dep := mark (contact_dep rt), pending := True,
           sink_log := sink_log rt @ [WriteContact (rcontact rt)]\<rparr>
      else rt)"

definition cert_effect :: "'x runtime \<Rightarrow> 'x runtime" where
  "cert_effect rt =
     (if changed (certs_dep rt) then
        rt\<lparr>provider := updateState (cert_sync (snapshot rt) (items (rcerts rt))) (provider rt),
           certs_dep := mark (certs_dep rt), pending := True,
           sink_log := sink_log rt @ [WriteCerts (items (rcerts rt))]\<rparr>
      else rt)"

definition work_effect :: "'x runtime \<Rightarrow> 'x runtime" where
  "work_effect rt =
     (if changed (works_dep rt) then
        rt\<lparr>provider := updateState (work_sync (snapshot rt) (items (rworks rt))) (provider rt),
           works_dep := mark (works_dep rt), pending := True,
           sink_log := sink_log rt @ [WriteWorks (items (rworks rt))]\<rparr>
      else rt)"

definition commit :: "'x runtime \<Rightarrow> 'x runtime" where
  "commit rt = work_effect (cert_effect (contact_effect rt))"

definition render :: "'x runtime \<Rightarrow> 'x runtime" where
  "render rt = rt\<lparr>snapshot := provider rt, pending := False\<rparr>"

partial_function (option) settle :: "'x runtime \<Rightarrow> 'x runtime option" where
  "settle rt = (if pending rt then settle (commit (render rt)) else Some rt)"

text \<open>
  The UI events: a handler runs, its setter calls bump the identities of the values they
  replace, and a render is scheduled. The list forms call their list's setter exactly when
  the reaction says so (\<open>setItems\<close>); \<open>handleChange\<close> always calls \<open>setState\<close>
  with a new object.
\<close>

fun dispatch :: "'x runtime \<Rightarrow> app_event \<Rightarrow> 'x runtime" where
  "dispatch rt (ContactInput key v) =
     rt\<lparr>rcontact := handleChange key v (rcontact rt), contact_dep := bump (contact_dep rt),
        pending := True\<rparr>"
| "dispatch rt (CertUI e) =
     (let r = form_step cert_form (rgen rt) (rcerts rt) e in
      rt\<lparr>rcerts := form r, rgen := seed r,
         certs_dep := (if setItems r then bump (certs_dep rt) else certs_dep rt), pending := True\<rparr>)"
| "dispatch rt (WorkUI e) =
     (let r = work_step (rgen rt) (rworks rt) e in
      rt\<lparr>rworks := form r, rgen := seed r,
         works_dep := (if setItems r then bump (works_dep rt) else works_dep rt), pending := True\<rparr>)"

fun run_ui :: "'x runtime \<Rightarrow> app_event list \<Rightarrow> 'x runtime option" where
  "run_ui rt [] = Some rt"
| "run_ui rt (e # es) = (case settle (dispatch rt e) of None \<Rightarrow> None | Some rt' \<Rightarrow> run_ui rt' es)"

definition fresh_slot :: slot where
  "fresh_slot = \<lparr>cur = 0, seen = None\<rparr>"

definition rt_mount :: "'x resume_scheme \<Rightarrow> 'x runtime" where
  "rt_mount c0 =
     \<lparr>provider = c0, snapshot = c0, rcontact = contact_init, rcerts = init_form cert_form,
      rworks = init_form work_form, rgen = 0, contact_dep = fresh_slot, certs_dep = fresh_slot,
      works_dep = fresh_slot, pending = True, sink_log = []\<rparr>"

definition dirty :: "'x runtime \<Rightarrow> bool" where
  "dirty rt \<longleftrightarrow> changed (contact_dep rt) \<or> changed (certs_dep rt) \<or> changed (works_dep rt)"

definition idle :: "'x runtime \<Rightarrow> bool" where
  "idle rt \<longleftrightarrow> \<not> pending rt \<and> \<not> dirty rt"

definition in_sync :: "'x runtime \<Rightarrow> bool" where
  "in_sync rt \<longleftrightarrow>
     certifications (provider rt) = items (rcerts rt) \<and> workExperience (provider rt) = items (rworks rt) \<and>
     resume.phoneNumber (provider rt) = contact_state.phoneNumber (rcontact rt) \<and>
     resume.website (provider rt) = contact_state.website (rcontact rt) \<and>
     resume.email (provider rt) = contact_state.email (rcontact rt)"
  \<comment> \<open>the context holds every form's current state\<close>

lemmas effect_defs = contact_effect_def cert_effect_def work_effect_def

lemma work_step_quiet_items:
  "\<not> setItems (work_step n s e) \<Longrightarrow> items (form (work_step n s e)) = items s"
  unfolding work_step_def by (rule quiet_step_items)


lemma changed_mark [simp]: "\<not> changed (mark d)"
  by (simp add: changed_def mark_def)

lemma changed_bump [simp]: "\<not> changed d \<Longrightarrow> changed (bump d)"
  by (simp add: changed_def bump_def)

lemma render_simps [simp]:
  "pending (render rt) = False" "dirty (render rt) = dirty rt" "render (render rt) = render rt"
  by (simp_all add: render_def dirty_def)

lemma pending_commit [simp]: "pending (commit rt) = (pending rt \<or> dirty rt)"
  by (simp add: commit_def effect_defs dirty_def)

lemma commit_clean [simp]: "\<not> dirty (commit rt)"
  by (simp add: commit_def effect_defs dirty_def)

lemma commit_idle: "\<not> dirty rt \<Longrightarrow> commit rt = rt"
  by (simp add: commit_def effect_defs dirty_def)

lemma settle_idle: "\<not> pending rt \<Longrightarrow> settle rt = Some rt"
  by (subst settle.simps) simp

text \<open>
  One render, one commit, and the render the context update schedules: the second commit
  finds every dependency as its effect last saw it and runs nothing.
\<close>

lemma settle_pending:
  assumes "pending rt"
  shows "settle rt = Some (render (commit (render rt)))"
proof -
  let ?r1 = "commit (render rt)"
  have unfold: "settle rt = settle ?r1" using assms by (subst settle.simps) simp
  show ?thesis
  proof (cases "dirty rt")
    case True
    then have "settle ?r1 = settle (commit (render ?r1))" by (subst settle.simps) simp
    also have "commit (render ?r1) = render ?r1" by (simp add: commit_idle)
    finally show ?thesis using unfold by (simp add: settle_idle)
  next
    case False
    then have "?r1 = render rt" by (simp add: commit_idle)
    with unfold show ?thesis by (simp add: settle_idle)
  qed
qed

lemma settle_dispatch: "settle (dispatch rt e) = Some (render (commit (render (dispatch rt e))))"
  by (rule settle_pending) (cases e; simp add: Let_def)


lemma cert_dispatch_settled:
  fixes rt :: "'x runtime" and e :: "cert_data event"
  assumes "idle rt"
  defines "r \<equiv> form_step cert_form (rgen rt) (rcerts rt) e"
  shows "rcerts (render (commit (render (dispatch rt (CertUI e))))) = form r \<and>
         rgen (render (commit (render (dispatch rt (CertUI e))))) = seed r \<and>
         sink_log (render (commit (render (dispatch rt (CertUI e))))) =
           sink_log rt @ (if setItems r then [WriteCerts (items (form r))] else [])"
  using assms by (simp add: commit_def effect_defs render_def idle_def dirty_def Let_def)

text \<open>
  One UI event from a settled runtime keeps the context in sync: the form whose list setter
  ran has a changed dependency, so its effect writes the new list over a snapshot that already
  held the other forms' state; a form whose setter did not run kept its list.
\<close>

lemma in_sync_step:
  assumes idle: "idle rt" and sync: "in_sync rt"
  shows "in_sync (render (commit (render (dispatch rt e))))"
proof (cases e)
  case (ContactInput key v)
  with idle sync show ?thesis
    by (simp add: in_sync_def commit_def effect_defs render_def idle_def dirty_def contact_sync_def
                  updateState_def)
next
  case (CertUI ev)
  show ?thesis
  proof (cases "setItems (form_step cert_form (rgen rt) (rcerts rt) ev)")
    case True
    with CertUI idle sync show ?thesis
      by (simp add: in_sync_def commit_def effect_defs render_def idle_def dirty_def cert_sync_def
                    updateState_def Let_def)
  next
    case False
    then have "items (form (form_step cert_form (rgen rt) (rcerts rt) ev)) = items (rcerts rt)"
      by (rule quiet_step_items)
    with False CertUI idle sync show ?thesis
      by (simp add: in_sync_def commit_def effect_defs render_def idle_def dirty_def Let_def)
  qed
next
  case (WorkUI ev)
  show ?thesis
  proof (cases "setItems (work_step (rgen rt) (rworks rt) ev)")
    case True
    with WorkUI idle sync show ?thesis
      by (simp add: in_sync_def commit_def effect_defs render_def idle_def dirty_def work_sync_def
                    updateState_def Let_def)
  next
    case False
    then have "items (form (work_step (rgen rt) (rworks rt) ev)) = items (rworks rt)"
      by (rule work_step_quiet_items)
    with False WorkUI idle sync show ?thesis
      by (simp add: in_sync_def commit_def effect_defs render_def idle_def dirty_def Let_def)
  qed
qed

lemma run_ui_in_sync:
  "idle rt \<Longrightarrow> in_sync rt \<Longrightarrow> \<exists>rt'. run_ui rt es = Some rt' \<and> idle rt' \<and> in_sync rt'"
proof (induction es arbitrary: rt)
  case Nil
  then show ?case by simp
next
  case (Cons e es)
  let ?R = "render (commit (render (dispatch rt e)))"
  have "idle ?R" by (simp add: idle_def)
  moreover from Cons.prems have "in_sync ?R" by (rule in_sync_step)
  ultimately have "\<exists>rt'. run_ui ?R es = Some rt' \<and> idle rt' \<and> in_sync rt'" by (rule Cons.IH)
  then show ?case by (simp add: settle_dispatch del: dispatch.simps)
qed

text \<open>
  C27. React's render and commit loop always settles. From any runtime state \<open>settle\<close>
  returns, with no update pending. When a render was pending, the result is one render, one
  commit and one more render, and every effect has run with its current dependency: the
  effects' writes into the context do not change their own dependencies.
\<close>

theorem settle_terminates:
  "\<exists>rt'. settle rt = Some rt' \<and> \<not> pending rt' \<and>
         (pending rt \<longrightarrow> rt' = render (commit (render rt)) \<and> \<not> dirty rt')"
proof (cases "pending rt")
  case True
  then show ?thesis by (simp add: settle_pending)
next
  case False
  then show ?thesis by (simp add: settle_idle)
qed

text \<open>
  C32. The effects keep the shared context in sync with the forms. When the forms mount on a
  context whose contact fields and lists are empty, the mount settles with the context holding
  every form's state, and after every sequence of UI events the loop settles again with the
  context holding each form's current list and contact values.
\<close>

theorem runtime_in_sync:
  assumes "certifications c0 = []" and "workExperience c0 = []" and "resume.phoneNumber c0 = []"
    and "resume.website c0 = []" and "resume.email c0 = []"
  shows "\<exists>rt0. settle (rt_mount c0) = Some rt0 \<and> in_sync rt0 \<and>
               (\<forall>es. \<exists>rt. run_ui rt0 es = Some rt \<and> in_sync rt)"
proof -
  let ?R0 = "render (commit (render (rt_mount c0)))"
  have "pending (rt_mount c0)" by (simp add: rt_mount_def)
  then have mount: "settle (rt_mount c0) = Some ?R0" by (rule settle_pending)
  have idle0: "idle ?R0" by (simp add: idle_def)
  from assms have sync0: "in_sync ?R0"
    by (simp add: in_sync_def rt_mount_def commit_def effect_defs render_def fresh_slot_def
                  changed_def mark_def contact_sync_def cert_sync_def work_sync_def updateState_def
                  contact_init_def init_form_def)
  have "\<forall>es. \<exists>rt. run_ui ?R0 es = Some rt \<and> in_sync rt"
    using run_ui_in_sync [OF idle0 sync0] by blast
  with mount sync0 show ?thesis by blast
qed

end
