(* ===== verification/Edit_Session.thy ===== *)
theory Edit_Session
  imports Certifications_Form
begin

text \<open>
  The edit session of the list forms against spec section 4.1. The spec describes the
  modal as a machine with states Closed, OpenCreate and OpenEdit(id) over the collection;
  \<open>spec_step\<close> is that machine, with the collection as a finite map. The controller's
  state is mapped to it by \<open>abs_state\<close>: the modal's visibility and \<open>currentId\<close> give the
  surface, \<open>abs_items\<close> the map. The simulation holds from every state whose session is
  consistent (\<open>session_ok\<close>: no session while closed, and an open edit session names a
  present record); cancelling an edit leaves an inconsistent session, and the next "add"
  is then a step the spec's machine does not allow.

  The theory also holds the submit button's label, the
  invariant that every stored record passed the schema, and the consequences: a bound on
  the list's length, an edit-and-save round trip, and that the list can always be emptied.
\<close>

datatype surface = Closed | OpenCreate | OpenEdit string

datatype 'd spec_event =
    StartAdd
  | StartEdit string
  | SubmitValid 'd
  | SubmitInvalid
  | Cancel
  | Remove string
  | Typing

type_synonym 'd spec_state = "surface \<times> (string \<rightharpoonup> 'd)"

inductive spec_step :: "'d spec_state \<Rightarrow> 'd spec_event \<Rightarrow> 'd spec_state \<Rightarrow> bool" where
  start_add: "spec_step (Closed, m) StartAdd (OpenCreate, m)"
| start_edit: "x \<in> dom m \<Longrightarrow> spec_step (Closed, m) (StartEdit x) (OpenEdit x, m)"
| start_edit_absent: "x \<notin> dom m \<Longrightarrow> spec_step (Closed, m) (StartEdit x) (Closed, m)"
| submit_create: "x \<notin> dom m \<Longrightarrow> spec_step (OpenCreate, m) (SubmitValid d) (Closed, m(x \<mapsto> d))"
| submit_edit: "x \<in> dom m \<Longrightarrow> spec_step (OpenEdit x, m) (SubmitValid d) (Closed, m(x \<mapsto> d))"
| submit_invalid: "sf \<noteq> Closed \<Longrightarrow> spec_step (sf, m) SubmitInvalid (sf, m)"
| cancel: "sf \<noteq> Closed \<Longrightarrow> spec_step (sf, m) Cancel (Closed, m)"
| typing: "sf \<noteq> Closed \<Longrightarrow> spec_step (sf, m) Typing (sf, m)"
| remove: "spec_step (Closed, m) (Remove x) (Closed, m(x := None))"

inductive_cases spec_step_StartAddE: "spec_step st StartAdd st'"

definition surface_of :: "'d form_state \<Rightarrow> surface" where
  "surface_of s =
     (if \<not> showModal s then Closed else if currentId s = [] then OpenCreate else OpenEdit (currentId s))"

definition abs_state :: "'d form_state \<Rightarrow> 'd spec_state" where
  "abs_state s = (surface_of s, abs_items (items s))"

fun label :: "'d form_spec \<Rightarrow> 'd form_state \<Rightarrow> 'd event \<Rightarrow> 'd spec_event" where
  "label fs s OnAdd = StartAdd"
| "label fs s (OnEdit x) = StartEdit x"
| "label fs s (OnDelete x) = Remove x"
| "label fs s OnCloseModal = Cancel"
| "label fs s (Input d) = Typing"
| "label fs s Submit = (if schema fs (formValues s) = [] then SubmitValid (formValues s) else SubmitInvalid)"

definition session_ok :: "'d form_state \<Rightarrow> bool" where
  "session_ok s \<longleftrightarrow> currentId s = [] \<or> (showModal s \<and> currentId s \<in> set (ids (items s)))"

definition submit_label :: "'d form_state \<Rightarrow> string" where
  "submit_label s = (if currentId s \<noteq> [] then ''global.update'' else ''global.add'')"

definition stored_valid :: "'d form_spec \<Rightarrow> 'd form_state \<Rightarrow> bool" where
  "stored_valid fs s \<longleftrightarrow> list_all (\<lambda>a. schema fs (data a) = []) (items s)"

definition close_if_open :: "'d form_state \<Rightarrow> 'd event list" where
  "close_if_open s = (if showModal s then [OnCloseModal] else [])"

definition cert_one :: "cert_data form_state" where
  "cert_one = (init_form cert_form)\<lparr>items := [\<lparr>entry_id = uuid 0, data = aws_cert\<rparr>]\<rparr>"
  \<comment> \<open>the certification form after adding one certification\<close>

subsection \<open>Shared facts\<close>

lemma surface_of_closed [simp]: "\<not> showModal s \<Longrightarrow> surface_of s = Closed"
  by (simp add: surface_of_def)

lemma surface_of_open [simp]:
  "showModal s \<Longrightarrow> surface_of s = (if currentId s = [] then OpenCreate else OpenEdit (currentId s))"
  by (simp add: surface_of_def)

lemma form_inv_ids_nonempty:
  "form_inv fs n s \<Longrightarrow> x \<in> set (ids (items s)) \<Longrightarrow> x \<noteq> []"
  by (auto simp: form_inv_def list_all_iff set_ids dest: issued_nonempty)

lemma onEdit_found:
  assumes "distinct (ids (items s))" and "x \<in> set (ids (items s))"
  shows "\<exists>a. a \<in> set (items s) \<and> entry_id a = x \<and>
             onEdit x s = s\<lparr>currentId := x, formValues := data a, showModal := True\<rparr>"
proof -
  from assms(2) obtain ys a zs where split: "items s = ys @ a # zs" and key: "entry_id a = x"
    using keyed_split [of x entry_id "items s"] by (auto simp: set_ids)
  from split assms(1) have "distinct (map entry_id (ys @ a # zs))" by (simp add: ids_def)
  then have "find (\<lambda>sn. entry_id sn = x) (ys @ a # zs) = Some a"
    using key by (rule keyed_find_split)
  with split key show ?thesis by (auto simp: onEdit_def)
qed

lemma form_step_counter_indep:
  assumes "seed (form_step fs n s e) = n"
  shows "form (form_step fs m s e) = form (form_step fs n s e) \<and>
         setItems (form_step fs m s e) = setItems (form_step fs n s e) \<and> seed (form_step fs m s e) = m"
  using assms by (cases e) (auto simp: handler_defs Let_def)

lemma form_run_append:
  "form_run fs n s (es1 @ es2) =
   (case form_run fs n s es1 of
      None \<Rightarrow> None
    | Some (n1, s1, w1) \<Rightarrow> map_option (\<lambda>(n2, s2, w2). (n2, s2, w1 @ w2)) (form_run fs n1 s1 es2))"
  by (induction es1 arbitrary: n s)
     (auto simp: Let_def option.map_id split: option.splits prod.splits)

lemma form_run_deletes:
  "\<not> showModal s \<Longrightarrow>
   \<exists>ws. form_run fs n s (map OnDelete xs) =
        Some (n, s\<lparr>items := filter (\<lambda>a. entry_id a \<notin> set xs) (items s)\<rparr>, ws)"
proof (induction xs arbitrary: s)
  case Nil
  then show ?case by simp
next
  case (Cons x xs)
  let ?s1 = "handleDelete x s"
  from Cons.prems have "\<not> showModal ?s1" by (simp add: handleDelete_def)
  then obtain ws where "form_run fs n ?s1 (map OnDelete xs) =
        Some (n, ?s1\<lparr>items := filter (\<lambda>a. entry_id a \<notin> set xs) (items ?s1)\<rparr>, ws)"
    using Cons.IH by blast
  with Cons.prems show ?case by (auto simp: handleDelete_def conj_commute)
qed

lemma stored_valid_step:
  "stored_valid fs s \<Longrightarrow> stored_valid fs (form (form_step fs n s e))"
  by (cases e) (auto simp: stored_valid_def handler_defs list_all_iff Let_def split: option.splits)

lemma reachable_invs: "reachable fs n s \<Longrightarrow> form_inv fs n s \<and> stored_valid fs s"
proof (induction rule: reachable.induct)
  case (init n)
  have "form_inv fs n (init_form fs)" by (rule form_inv_init)
  then show ?case by (simp add: stored_valid_def init_form_def)
next
  case (step n s e)
  then show ?case by (simp add: form_step_inv stored_valid_step)
next
  case (other n s m)
  then show ?case by (blast intro: form_inv_mono)
qed

lemma cert_one_reachable: "reachable cert_form 1 cert_one"
proof -
  have r0: "reachable cert_form 0 (init_form cert_form)" by (rule reachable.init)
  have r1: "reachable cert_form 0 ((init_form cert_form)\<lparr>showModal := True\<rparr>)"
    using reachable.step [OF r0, of OnAdd] by (simp add: handler_defs init_form_def)
  have r2: "reachable cert_form 0 ((init_form cert_form)\<lparr>showModal := True, formValues := aws_cert\<rparr>)"
    using reachable.step [OF r1, of "Input aws_cert"] by (simp add: handler_defs init_form_def)
  show ?thesis
    using reachable.step [OF r2, of Submit]
    by (simp add: handler_defs init_form_def cert_one_def cert_blank_def)
qed

subsection \<open>The spec's edit surface\<close>

lemma onEdit_missing:
  assumes "x \<notin> set (ids (items s))" shows "onEdit x s = s"
proof -
  from assms have "find (\<lambda>sn. entry_id sn = x) (items s) = None" by (simp add: keyed_find_None set_ids)
  then show ?thesis by (simp add: onEdit_def)
qed

lemma spec_step_onEdit_found:
  assumes inv: "form_inv fs n s" and closed: "\<not> showModal s" and found: "x \<in> set (ids (items s))"
  shows "spec_step (abs_state s) (StartEdit x) (abs_state (onEdit x s))"
proof -
  from inv have "distinct (ids (items s))" by (simp add: form_inv_def)
  then obtain a where "a \<in> set (items s)" "entry_id a = x"
      "onEdit x s = s\<lparr>currentId := x, formValues := data a, showModal := True\<rparr>"
    using onEdit_found [OF _ found] by blast
  moreover from inv found have "x \<noteq> []" by (rule form_inv_ids_nonempty)
  ultimately show ?thesis using found closed
    by (simp add: abs_state_def spec_step.start_edit)
qed

lemma spec_step_submit:
  assumes inv: "form_inv fs n s" and ok: "session_ok s" and open_: "showModal s"
  shows "spec_step (abs_state s) (label fs s Submit) (abs_state (form (handleSubmit fs n s)))"
proof -
  from inv have fresh: "uuid n \<notin> set (ids (items s))" by (simp add: form_inv_def issued_fresh_not_in)
  consider (invalid) "schema fs (formValues s) \<noteq> []"
    | (create) "schema fs (formValues s) = []" "currentId s = []"
    | (edit) "schema fs (formValues s) = []" "currentId s \<in> set (ids (items s))" "currentId s \<noteq> []"
    using ok by (auto simp: session_ok_def)
  then show ?thesis
  proof cases
    case invalid
    with open_ show ?thesis
      by (auto simp: abs_state_def handleSubmit_def quiet_def surface_of_def intro: spec_step.submit_invalid)
  next
    case create
    with open_ fresh show ?thesis
      by (simp add: abs_state_def handleSubmit_def handleFormSubmit_def reset_def spec_step.submit_create)
  next
    case edit
    with open_ show ?thesis
      by (simp add: abs_state_def handleSubmit_def handleFormSubmit_def reset_def abs_items_update
                    spec_step.submit_edit)
  qed
qed

text \<open>
  C18. From a state with a consistent session, every step the UI can deliver is a step of the
  spec's edit-surface machine on the abstract state, labelled by the spec operation it
  performs.
\<close>

theorem form_step_simulates:
  assumes inv: "form_inv fs n s" and ok: "session_ok s" and en: "enabled s e"
  shows "spec_step (abs_state s) (label fs s e) (abs_state (form (form_step fs n s e)))"
proof (cases e)
  case OnAdd
  with en ok show ?thesis by (simp add: abs_state_def session_ok_def handler_defs spec_step.start_add)
next
  case (OnEdit x)
  show ?thesis
  proof (cases "x \<in> set (ids (items s))")
    case True
    with OnEdit inv en show ?thesis by (simp add: quiet_def spec_step_onEdit_found)
  next
    case False
    then have "find (\<lambda>sn. entry_id sn = x) (items s) = None" by (simp add: keyed_find_None set_ids)
    with False OnEdit en show ?thesis
      by (simp add: quiet_def onEdit_def abs_state_def dom_abs_items spec_step.start_edit_absent)
  qed
next
  case (OnDelete x)
  from inv have "distinct (ids (items s))" by (simp add: form_inv_def)
  with OnDelete en ok show ?thesis
    by (simp add: abs_state_def session_ok_def handleDelete_def abs_items_filter spec_step.remove)
next
  case OnCloseModal
  with en show ?thesis by (auto simp: abs_state_def handler_defs intro: spec_step.cancel)
next
  case (Input d)
  with en show ?thesis by (auto simp: abs_state_def quiet_def intro: spec_step.typing)
next
  case Submit
  with en have "showModal s" by simp
  with Submit show ?thesis using spec_step_submit [OF inv ok] by (simp only: form_step.simps)
qed

text \<open>
  C19. Every step the UI can deliver keeps the session consistent, except closing the modal
  during an edit: \<open>closeModal\<close> does not clear \<open>currentId\<close>.
\<close>

theorem session_ok_step:
  assumes inv: "form_inv fs n s" and ok: "session_ok s" and en: "enabled s e"
    and not_cancel_edit: "e = OnCloseModal \<Longrightarrow> currentId s = []"
  shows "session_ok (form (form_step fs n s e))"
proof (cases e)
  case (OnEdit x)
  show ?thesis
  proof (cases "x \<in> set (ids (items s))")
    case True
    from inv have "distinct (ids (items s))" by (simp add: form_inv_def)
    then obtain a where "a \<in> set (items s)" "entry_id a = x"
        "onEdit x s = s\<lparr>currentId := x, formValues := data a, showModal := True\<rparr>"
      using onEdit_found [OF _ True] by blast
    with OnEdit True show ?thesis by (simp add: session_ok_def quiet_def)
  next
    case False
    with OnEdit ok show ?thesis by (simp add: quiet_def onEdit_missing)
  qed
next
  case (OnDelete x)
  with en ok show ?thesis by (simp add: session_ok_def handleDelete_def)
next
  case OnCloseModal
  with not_cancel_edit show ?thesis by (simp add: session_ok_def handler_defs)
qed (use ok in \<open>auto simp: session_ok_def handler_defs Let_def\<close>)

text \<open>
  C20. Cancelling an edit leaves the session pointing at the record: the modal is closed, but
  the next "add" opens it in edit mode, a step the spec's machine does not allow from the
  closed state, and the submit button reads \<open>global.update\<close>.
\<close>

theorem cancel_edit_breaks_simulation:
  assumes "showModal s" and "currentId s \<noteq> []"
  shows "surface_of (closeModal fs s) = Closed \<and>
         \<not> spec_step (abs_state (closeModal fs s)) StartAdd (abs_state (onAdd (closeModal fs s))) \<and>
         submit_label (onAdd (closeModal fs s)) = ''global.update''"
  using assms
  by (auto simp: abs_state_def closeModal_def onAdd_def reset_def submit_label_def
           elim: spec_step_StartAddE)

subsection \<open>Invariant and bounds\<close>

text \<open>C21. In every reachable state every stored record passed the form's schema.\<close>

theorem reachable_stored_valid: "reachable fs n s \<Longrightarrow> stored_valid fs s"
  using reachable_invs by blast

text \<open>
  C22. In every reachable state the list holds at most as many records as ids have been
  issued.
\<close>

theorem reachable_length_bound:
  assumes "reachable fs n s"
  shows "length (items s) \<le> n"
proof -
  from assms have inv: "form_inv fs n s" using reachable_invs by blast
  then have dist: "distinct (ids (items s))" by (simp add: form_inv_def)
  from inv have "set (ids (items s)) \<subseteq> uuid ` {..<n}"
    by (auto simp: form_inv_def list_all_iff set_ids issued_def)
  then have "card (set (ids (items s))) \<le> card (uuid ` {..<n})" by (simp add: card_mono)
  also have "\<dots> \<le> n" using card_image_le [of "{..<n}" uuid] by simp
  finally have "card (set (ids (items s))) \<le> n" .
  moreover from dist have "card (set (ids (items s))) = length (ids (items s))" by (rule distinct_card)
  ultimately show ?thesis by (simp add: ids_def)
qed

text \<open>
  C23. One step adds at most one record and consumes at most one id; the id counter never
  goes back.
\<close>

theorem form_step_bounds:
  "length (items (form (form_step fs n s e))) \<le> Suc (length (items s)) \<and>
   n \<le> seed (form_step fs n s e) \<and> seed (form_step fs n s e) \<le> Suc n"
  by (cases e) (auto simp: handler_defs Let_def intro: le_SucI length_filter_le split: option.splits)

subsection \<open>Round trip and liveness\<close>

text \<open>
  C24. Opening a stored record for editing and saving it without changes gives the same list
  back; one snapshot, equal to that list, is written, and the form is left closed in create
  mode.
\<close>

theorem edit_save_roundtrip:
  assumes reach: "reachable fs n s" and closed: "\<not> showModal s" and present: "x \<in> set (ids (items s))"
  shows "form_run fs n s [OnEdit x, Submit] = Some (n, s\<lparr>currentId := []\<rparr>, [items s])"
proof -
  from reach have inv: "form_inv fs n s" and sv: "stored_valid fs s" using reachable_invs by blast+
  from inv have dist: "distinct (ids (items s))" by (simp add: form_inv_def)
  from inv closed have blank: "formValues s = blank fs" "errors s = []" by (simp_all add: form_inv_def)
  from inv present have nonempty: "x \<noteq> []" by (rule form_inv_ids_nonempty)
  from present obtain ys a zs where split: "items s = ys @ a # zs" and key: "entry_id a = x"
    using keyed_split [of x entry_id "items s"] by (auto simp: set_ids)
  from split dist have dist': "distinct (map entry_id (ys @ a # zs))" by (simp add: ids_def)
  then have found: "find (\<lambda>sn. entry_id sn = x) (items s) = Some a"
    using key split by (simp add: keyed_find_split)
  from sv split have valid: "schema fs (data a) = []" by (simp add: stored_valid_def)
  have same: "map (\<lambda>award. if entry_id award = x then \<lparr>entry_id = entry_id award, data = data a\<rparr> else award)
                (items s) = items s"
    using keyed_update_split [OF dist' key] split key by simp
  have restored: "s\<lparr>items := items s, currentId := [], showModal := False, formValues := blank fs, errors := []\<rparr> =
               s\<lparr>currentId := []\<rparr>"
    using closed blank by (cases s) simp
  show ?thesis
    using closed found valid nonempty same restored key
    by (simp add: onEdit_def quiet_def handleSubmit_def handleFormSubmit_def reset_def)
qed

text \<open>
  C25. From any state the UI can empty the list: close the modal if it is open, then delete
  every record by its id.
\<close>

theorem can_empty_list:
  "\<exists>n' s' ws. form_run fs n s (close_if_open s @ map OnDelete (ids (items s))) = Some (n', s', ws) \<and>
              items s' = [] \<and> \<not> showModal s'"
proof -
  obtain s0 w0 where first: "form_run fs n s (close_if_open s) = Some (n, s0, w0)"
    and closed: "\<not> showModal s0" and same: "items s0 = items s"
    by (cases "showModal s") (auto simp: close_if_open_def handler_defs)
  from closed obtain ws where
    "form_run fs n s0 (map OnDelete (ids (items s))) =
       Some (n, s0\<lparr>items := filter (\<lambda>a. entry_id a \<notin> set (ids (items s))) (items s0)\<rparr>, ws)"
    using form_run_deletes by blast
  with first closed same show ?thesis
    by (auto simp: form_run_append set_ids filter_empty_conv)
qed

subsection \<open>The theorems at concrete certification states\<close>

theorem form_step_simulates_witness:
  "spec_step (abs_state cert_two) (StartEdit (uuid 0))
     (abs_state (form (form_step cert_form 2 cert_two (OnEdit (uuid 0)))))"
proof -
  have h: "form_inv cert_form 2 cert_two" "session_ok cert_two" "enabled cert_two (OnEdit (uuid 0))"
    by (simp_all add: form_inv_def session_ok_def cert_states issued_def)
  from form_step_simulates [OF h] show ?thesis by simp
qed

theorem session_ok_step_witness:
  "session_ok (form (form_step cert_form 2 cert_two (OnEdit (uuid 1))))"
proof -
  have h: "form_inv cert_form 2 cert_two" "session_ok cert_two" "enabled cert_two (OnEdit (uuid 1))"
    "OnEdit (uuid 1) = OnCloseModal \<Longrightarrow> currentId cert_two = []"
    by (simp_all add: form_inv_def session_ok_def cert_states issued_def)
  from session_ok_step [OF h] show ?thesis .
qed

theorem cancel_edit_breaks_simulation_witness:
  "\<not> spec_step (abs_state (closeModal cert_form cert_editing)) StartAdd
       (abs_state (onAdd (closeModal cert_form cert_editing))) \<and>
   submit_label (onAdd (closeModal cert_form cert_editing)) = ''global.update''"
proof -
  have h: "showModal cert_editing" "currentId cert_editing \<noteq> []" by (simp_all add: cert_states)
  from cancel_edit_breaks_simulation [OF h] show ?thesis by simp
qed

theorem reachable_stored_valid_witness: "stored_valid cert_form cert_one"
  using reachable_stored_valid [OF cert_one_reachable] .

theorem reachable_length_bound_witness: "length (items cert_one) \<le> 1"
  using reachable_length_bound [OF cert_one_reachable] .

theorem edit_save_roundtrip_witness:
  "form_run cert_form 1 cert_one [OnEdit (uuid 0), Submit] = Some (1, cert_one, [items cert_one])"
proof -
  have h: "\<not> showModal cert_one" "uuid 0 \<in> set (ids (items cert_one))"
    by (simp_all add: cert_one_def init_form_def)
  have "cert_one\<lparr>currentId := []\<rparr> = cert_one" by (simp add: cert_one_def init_form_def)
  with edit_save_roundtrip [OF cert_one_reachable h] show ?thesis by simp
qed

end
