(* ===== verification/Form_View.thy ===== *)
theory Form_View
  imports Edit_Session Work_Experience_Form
begin

text \<open>
  What the two list forms render: the JSX of \<open>CertificationsForm\<close> and
  \<open>WorkExperienceForm\<close> as a function of their state. The list shows each record's
  \<open>propertyToShow\<close> (\<open>title\<close>, \<open>company\<close>) and an empty message built with
  react-intl. The modal is shown while \<open>showModal\<close> holds, and has a header, one input
  per field and a submit button. Each \<open>Input\<close> gets its label from react-intl, its
  value from the registered field and its error from \<open>errors.field?.message\<close>. The
  \<open>Textarea\<close> for the summary gets no error prop. react-intl's \<open>formatMessage\<close> is
  a parameter \<open>intl\<close> (message id and values to text), because the messages are not
  part of the sources. \<open>toLowerCase\<close> is JavaScript's on ASCII letters.
\<close>

type_synonym intl = "string \<Rightarrow> (string \<times> string) list \<Rightarrow> string"

record input_view =
  field_name :: string
  input_label :: string
  input_value :: string
  error_msg :: "string option"

record modal_view =
  visible :: bool
  header :: "string list"
  inputs :: "input_view list"
  submit_text :: string
  empty_message :: string
  list_labels :: "string list"

definition lower_char :: "char \<Rightarrow> char" where
  "lower_char c = (let k = of_char c :: nat in if 65 \<le> k \<and> k \<le> 90 then char_of (k + 32) else c)"

definition toLowerCase :: "string \<Rightarrow> string" where
  "toLowerCase s = map lower_char s"

definition field_input :: "intl \<Rightarrow> field_errors \<Rightarrow> string \<Rightarrow> string \<Rightarrow> string \<Rightarrow> input_view" where
  "field_input intl errs f lbl v =
     \<lparr>field_name = f, input_label = intl lbl [], input_value = v, error_msg = map_of errs f\<rparr>"

definition textarea_input :: "intl \<Rightarrow> string \<Rightarrow> string \<Rightarrow> string \<Rightarrow> input_view" where
  "textarea_input intl f lbl v = \<lparr>field_name = f, input_label = intl lbl [], input_value = v, error_msg = None\<rparr>"

definition cert_emptyMessage :: "intl \<Rightarrow> string" where
  "cert_emptyMessage intl =
     intl ''sidebar.crudList.emptyMessage''
       [(''gender'', ''female''), (''name'', toLowerCase (intl ''global.certification'' []))]"

definition work_emptyMessage :: "intl \<Rightarrow> string" where
  "work_emptyMessage intl =
     intl ''sidebar.crudList.emptyMessage''
       [(''gender'', ''female''), (''name'', toLowerCase (intl ''global.experience'' []))]"

definition cert_view :: "intl \<Rightarrow> cert_data form_state \<Rightarrow> modal_view" where
  "cert_view intl s =
     (let v = formValues s; errs = errors s in
      \<lparr>visible = showModal s,
       header = [intl ''global.certifications'' []],
       inputs = [field_input intl errs ''title'' ''sidebar.form.certifications.title'' (title v),
                 field_input intl errs ''issuer'' ''sidebar.form.certifications.issuer'' (issuer v),
                 field_input intl errs ''date'' ''sidebar.form.certifications.date'' (date v),
                 textarea_input intl ''summary'' ''sidebar.form.certifications.summary''
                   (cert_data.summary v)],
       submit_text = intl (submit_label s) [],
       empty_message = cert_emptyMessage intl,
       list_labels = map (\<lambda>a. title (data a)) (items s)\<rparr>)"

definition work_view :: "intl \<Rightarrow> work_data form_state \<Rightarrow> modal_view" where
  "work_view intl s =
     (let v = formValues s; errs = errors s in
      \<lparr>visible = showModal s,
       header = [intl (if currentId s \<noteq> [] then ''global.update'' else ''global.add'') [],
                 intl ''global.experience'' []],
       inputs = [field_input intl errs ''company'' ''sidebar.form.workExperience.company'' (company v),
                 field_input intl errs ''position'' ''sidebar.form.workExperience.position'' (position v),
                 field_input intl errs ''website'' ''sidebar.form.workExperience.website'' (website v),
                 field_input intl errs ''startDate'' ''sidebar.form.workExperience.startDate'' (startDate v),
                 field_input intl errs ''endDate'' ''sidebar.form.workExperience.endDate'' (endDate v),
                 textarea_input intl ''summary'' ''sidebar.form.workExperience.summary''
                   (work_data.summary v)],
       submit_text = intl (if currentId s \<noteq> [] then ''global.update'' else ''global.add'') [],
       empty_message = work_emptyMessage intl,
       list_labels = map (\<lambda>a. company (data a)) (items s)\<rparr>)"

lemma map_of_work_schema [simp]:
  "map_of (work_schema d) ''company'' = (if company d = [] then Some required_message else None)"
  "map_of (work_schema d) ''position'' = (if position d = [] then Some required_message else None)"
  "map_of (work_schema d) ''website'' = None"
  "map_of (work_schema d) ''startDate'' = (if startDate d = [] then Some required_message else None)"
  "map_of (work_schema d) ''endDate'' = (if endDate d = [] then Some required_message else None)"
  by (simp_all add: work_schema_def required_def)

lemma map_of_cert_schema [simp]:
  "map_of (cert_schema d) ''title'' = (if title d = [] then Some required_message else None)"
  "map_of (cert_schema d) ''issuer'' = (if issuer d = [] then Some required_message else None)"
  "map_of (cert_schema d) ''date'' = (if date d = [] then Some required_message else None)"
  by (simp_all add: cert_schema_def required_def)

lemma entry_unique:
  "distinct (ids xs) \<Longrightarrow> a \<in> set xs \<Longrightarrow> b \<in> set xs \<Longrightarrow> entry_id b = entry_id a \<Longrightarrow> b = a"
  by (auto simp: ids_def distinct_map dest: inj_onD)

text \<open>The two steps the view lemmas look at, on every form: a rejected submit and an edit.\<close>

lemma rejected_submit_form:
  "schema fs (formValues s) \<noteq> [] \<Longrightarrow>
   form (form_step fs n s Submit) = s\<lparr>errors := schema fs (formValues s)\<rparr>"
  by (simp add: handleSubmit_def quiet_def Let_def)

lemma onEdit_stored:
  assumes "distinct (ids (items s))" and "a \<in> set (items s)"
  shows "form (form_step fs n s (OnEdit (entry_id a))) =
           s\<lparr>currentId := entry_id a, formValues := data a, showModal := True\<rparr>"
proof -
  from assms(2) have "entry_id a \<in> set (ids (items s))" by (simp add: set_ids)
  with assms(1) obtain b where b: "b \<in> set (items s)" "entry_id b = entry_id a"
    "onEdit (entry_id a) s = s\<lparr>currentId := entry_id a, formValues := data b, showModal := True\<rparr>"
    using onEdit_found by blast
  from assms b(1,2) have "b = a" by (rule entry_unique)
  with b(3) show ?thesis by (simp add: quiet_def)
qed

text \<open>
  C30. A submit the schema rejects leaves either modal as it was, with the values the user
  typed, and shows the required-field message under exactly the required inputs left empty.
  The work form's website input and both summary textareas show nothing.
\<close>

theorem invalid_submit_view:
  assumes "work_schema (formValues s) \<noteq> []" and "cert_schema (formValues c) \<noteq> []"
  shows "visible (work_view intl (form (work_step n s Submit))) = showModal s \<and>
         map input_value (inputs (work_view intl (form (work_step n s Submit)))) =
           map input_value (inputs (work_view intl s)) \<and>
         map error_msg (inputs (work_view intl (form (work_step n s Submit)))) =
           map (\<lambda>v. if v = [] then Some required_message else None)
               [company (formValues s), position (formValues s)] @ [None] @
           map (\<lambda>v. if v = [] then Some required_message else None)
               [startDate (formValues s), endDate (formValues s)] @ [None] \<and>
         visible (cert_view intl (form (form_step cert_form n c Submit))) = showModal c \<and>
         map input_value (inputs (cert_view intl (form (form_step cert_form n c Submit)))) =
           map input_value (inputs (cert_view intl c)) \<and>
         map error_msg (inputs (cert_view intl (form (form_step cert_form n c Submit)))) =
           map (\<lambda>v. if v = [] then Some required_message else None)
               [title (formValues c), issuer (formValues c), date (formValues c)] @ [None]"
proof -
  from assms(1) have w: "form (work_step n s Submit) = s\<lparr>errors := work_schema (formValues s)\<rparr>"
    unfolding work_step_def using rejected_submit_form [of work_form s n] by (simp del: form_step.simps)
  from assms(2) have c: "form (form_step cert_form n c Submit) = c\<lparr>errors := cert_schema (formValues c)\<rparr>"
    using rejected_submit_form [of cert_form c n] by (simp del: form_step.simps)
  show ?thesis unfolding w c
    by (simp add: work_view_def cert_view_def field_input_def textarea_input_def Let_def)
qed

text \<open>
  C31. Opening a stored record for editing shows the modal with every input holding the
  record's stored value (the \<open>setValue\<close> calls) and no error under any input, and the
  submit button reads "update". The work modal's header reads "update" too; the
  certification modal's header is the fixed section title.
\<close>

theorem edit_view_prefilled:
  assumes "distinct (ids (items s))" and "a \<in> set (items s)" and "entry_id a \<noteq> []"
    and "errors s = []"
    and "distinct (ids (items c))" and "b \<in> set (items c)" and "entry_id b \<noteq> []"
    and "errors c = []"
  shows "visible (work_view intl (form (work_step n s (OnEdit (entry_id a))))) \<and>
         header (work_view intl (form (work_step n s (OnEdit (entry_id a))))) =
           [intl ''global.update'' [], intl ''global.experience'' []] \<and>
         submit_text (work_view intl (form (work_step n s (OnEdit (entry_id a))))) =
           intl ''global.update'' [] \<and>
         map input_value (inputs (work_view intl (form (work_step n s (OnEdit (entry_id a)))))) =
           [company (data a), position (data a), website (data a), startDate (data a),
            endDate (data a), work_data.summary (data a)] \<and>
         map error_msg (inputs (work_view intl (form (work_step n s (OnEdit (entry_id a)))))) =
           [None, None, None, None, None, None] \<and>
         visible (cert_view intl (form (form_step cert_form n c (OnEdit (entry_id b))))) \<and>
         header (cert_view intl (form (form_step cert_form n c (OnEdit (entry_id b))))) =
           [intl ''global.certifications'' []] \<and>
         submit_text (cert_view intl (form (form_step cert_form n c (OnEdit (entry_id b))))) =
           intl ''global.update'' [] \<and>
         map input_value (inputs (cert_view intl (form (form_step cert_form n c (OnEdit (entry_id b)))))) =
           [title (data b), issuer (data b), date (data b), cert_data.summary (data b)] \<and>
         map error_msg (inputs (cert_view intl (form (form_step cert_form n c (OnEdit (entry_id b)))))) =
           [None, None, None, None]"
proof -
  from assms(1,2) have w: "form (work_step n s (OnEdit (entry_id a))) =
      s\<lparr>currentId := entry_id a, formValues := data a, showModal := True\<rparr>"
    unfolding work_step_def by (rule onEdit_stored)
  from assms(5,6) have c: "form (form_step cert_form n c (OnEdit (entry_id b))) =
      c\<lparr>currentId := entry_id b, formValues := data b, showModal := True\<rparr>"
    by (rule onEdit_stored)
  show ?thesis unfolding w c using assms(3,4,7,8)
    by (simp add: work_view_def cert_view_def submit_label_def field_input_def textarea_input_def Let_def)
qed

theorem invalid_submit_view_witness:
  "map error_msg (inputs (work_view (\<lambda>k vs. k)
     (form (work_step 0 ((init_form work_form)\<lparr>showModal := True, formValues := acme_job\<lparr>position := []\<rparr>\<rparr>)
            Submit)))) = [None, Some required_message, None, None, None, None] \<and>
   map error_msg (inputs (cert_view (\<lambda>k vs. k)
     (form (form_step cert_form 0 ((init_form cert_form)\<lparr>showModal := True, formValues := aws_cert\<lparr>date := []\<rparr>\<rparr>)
            Submit)))) = [None, None, Some required_message, None]"
proof -
  have h: "work_schema (formValues ((init_form work_form)\<lparr>showModal := True,
             formValues := acme_job\<lparr>position := []\<rparr>\<rparr>)) \<noteq> []"
    "cert_schema (formValues ((init_form cert_form)\<lparr>showModal := True,
             formValues := aws_cert\<lparr>date := []\<rparr>\<rparr>)) \<noteq> []"
    by (simp_all add: work_schema_def cert_schema_def required_def)
  from invalid_submit_view [OF h, of "\<lambda>k vs. k" 0] show ?thesis
    by (simp add: acme_job_def aws_cert_def init_form_def)
qed

theorem edit_view_prefilled_witness:
  "map input_value (inputs (work_view (\<lambda>k vs. k)
     (form (work_step 1 ((init_form work_form)\<lparr>items := [\<lparr>entry_id = uuid 0, data = acme_job\<rparr>]\<rparr>)
            (OnEdit (uuid 0)))))) =
   [''ACME'', ''Engineer'', [], ''2020-01-01'', ''2023-12-31'', []] \<and>
   header (cert_view (\<lambda>k vs. k)
     (form (form_step cert_form 1 ((init_form cert_form)\<lparr>items := [\<lparr>entry_id = uuid 0, data = aws_cert\<rparr>]\<rparr>)
            (OnEdit (uuid 0))))) = [''global.certifications'']"
proof -
  let ?s = "(init_form work_form)\<lparr>items := [\<lparr>entry_id = uuid 0, data = acme_job\<rparr>]\<rparr>"
  let ?a = "\<lparr>entry_id = uuid 0, data = acme_job\<rparr>"
  let ?c = "(init_form cert_form)\<lparr>items := [\<lparr>entry_id = uuid 0, data = aws_cert\<rparr>]\<rparr>"
  let ?b = "\<lparr>entry_id = uuid 0, data = aws_cert\<rparr>"
  have h: "distinct (ids (items ?s))" "?a \<in> set (items ?s)" "entry_id ?a \<noteq> []" "errors ?s = []"
    "distinct (ids (items ?c))" "?b \<in> set (items ?c)" "entry_id ?b \<noteq> []" "errors ?c = []"
    by (simp_all add: uuid_nonempty init_form_def)
  from edit_view_prefilled [OF h, of "\<lambda>k vs. k" 1] show ?thesis
    by (simp add: acme_job_def)
qed

end
