(* ===== verification/Theme.thy ===== *)
theory Theme
  imports Prelude
begin
















end
