(* ===== verification/Spec2Isabelle.thy ===== *)
theory Spec2Isabelle
  imports Effects Form_View Theme
begin

text \<open>
  \<^bold>\<open>Verification of the resume editor's form sidebar (MarcosPrintes/resume-maker).\<close>

  \<^bold>\<open>The program.\<close> Three React components under \<open>src/components/FormSidebar\<close>
  edit parts of one resume held in a shared context (\<open>useResume()\<close>, not part of the
  sources). \<open>ContactForm\<close> keeps three strings. \<open>CertificationsForm\<close> and
  \<open>WorkExperienceForm\<close> keep an ordered list of records with string ids. They edit it
  in a modal: add, edit (\<open>onEdit\<close> pre-fills the inputs and sets \<open>currentId\<close>),
  delete, close, and submit through react-hook-form with a yup schema. Every component
  mirrors its state into the context from a \<open>useEffect\<close> that writes
  \<open>{...contextState, field: value}\<close>. The theme file \<open>support/themes/light.ts\<close> builds
  the \<open>Light\<close> theme from a colour palette with an object spread.

  \<^bold>\<open>Theories.\<close>
  \<^item> \<open>Prelude\<close>: the collections \<open>keyed_simps\<close> and \<open>handler_defs\<close>, and lemmas on the
    JavaScript idioms \<open>map\<close>-replace, \<open>filter\<close>-delete and \<open>find\<close> over id-keyed lists.
  \<^item> \<open>Uuid\<close>: the external \<open>uuid()\<close>, modelled as a counter printed in decimal. Ids are
    non-empty and injective, by a print/parse round trip (\<open>read_show_nat\<close>). The counter
    is global: it lives in the app state and forms thread it through their handlers.
  \<^item> \<open>Crud_Form\<close>: the controller both list forms implement, generic in the form data
    \<open>'d\<close>. The state record \<open>form_state\<close> holds the React hooks and react-hook-form's
    values and errors. There is one definition per handler (\<open>handleFormSubmit\<close>,
    \<open>handleSubmit\<close>, \<open>onEdit\<close>, \<open>closeModal\<close>, \<open>handleDelete\<close>, \<open>onAdd\<close>),
    plus the event dispatch \<open>form_step\<close> (the JSX wiring) and the UI guard \<open>enabled\<close>.
    \<open>form_run\<close> runs an event list and records the context snapshots the effect writes.
    \<open>reachable\<close> is the inductive step relation; its rule \<open>other\<close> lets other forms
    advance the id counter.
    Lemmas: the invariant \<open>form_inv\<close> in every reachable state (distinct issued ids,
    \<open>currentId\<close> empty or issued, blank inputs while closed). The behaviour of submit on
    each branch: create, edit in place, invalid, stale edit. Edit and delete on present and
    absent ids. That the setter fires exactly on deletes and accepted submits, and that the
    last snapshot always equals the list (\<open>form_run_synced\<close>). A refinement
    (\<open>form_step_refines\<close>): under \<open>abs_items\<close>, every step is an operation on a finite
    map from ids to values (\<open>apply_coll_op\<close>).
  \<^item> \<open>Certifications_Form\<close>, \<open>Work_Experience_Form\<close>: each form's \<open>FormData\<close> record
    and schema, and its instance of the controller (\<open>cert_form\<close>, \<open>work_form\<close>;
    \<open>onSubmit\<close>, \<open>deleteNetwork\<close>, \<open>work_step\<close> name the work form's handlers).
    Lemmas: what each schema accepts. Example runs (spec section 8's end-to-end scenario
    and the two cancelled-edit runs) illustrate the general theorems at fixed inputs.
    Witnesses of the generic theorems are at concrete certification states here.
  \<^item> \<open>Edit_Session\<close>: spec section 4.1's edit-surface machine as the inductive
    \<open>spec_step\<close> over (Closed / OpenCreate / OpenEdit id, finite map).
    \<open>form_step_simulates\<close> shows that every controller step from a consistent session
    (\<open>session_ok\<close>) is a \<open>spec_step\<close> under \<open>abs_state\<close>. \<open>session_ok_step\<close> shows that
    consistency survives every step except cancelling an edit, and
    \<open>cancel_edit_breaks_simulation\<close> shows the next add then leaves the spec (and the
    submit label \<open>submit_label\<close> reads "update"). Also here: the
    invariant that stored records passed the schema; the bounds (list length at most the
    ids issued, one record and one id per step); the edit-and-save round trip; and
    liveness (the UI can always empty the list).
  \<^item> \<open>Theme\<close>: string-valued JavaScript objects as insertion-ordered association lists,
    with the property-set rule of object literals (\<open>obj_set\<close>, \<open>spread\<close>). It models
    \<open>COLORS\<close> and \<open>Light\<close>. \<open>spread_semantics\<close>: for every base object and
    property list, a spread reads each key's last value and keeps each key at its first
    position.
  \<^item> \<open>Resume_Context\<close>: the context record (extensible by the fields no form writes) and
    \<open>updateState\<close> (whole-state replace). It also holds the effects' snapshots
    \<open>cert_sync\<close> and \<open>work_sync\<close>, and \<open>mount_effects\<close> for effects that run in one
    commit from one snapshot.
  \<^item> \<open>Contact_Form\<close>: the contact state, \<open>handleChange\<close> keyed by input name,
    \<open>contact_sync\<close>.
  \<^item> \<open>Effects\<close>: React's render and commit loop over the three effects and their
    dependency arrays. A dependency's identity is a version (\<open>slot\<close>, \<open>bump\<close>,
    \<open>mark\<close>, \<open>changed\<close>). There is one definition per effect (\<open>contact_effect\<close>,
    \<open>cert_effect\<close>, \<open>work_effect\<close>). \<open>dispatch\<close> is a UI event with its setter calls.
    \<open>settle\<close> is the loop until no update is pending, a \<open>partial_function (option)\<close>.
    Every write into the context is logged (\<open>sink_log\<close>). \<open>settle_terminates\<close>: the
    loop always returns, after one render, one commit and one more render, because no effect
    writes its own dependency.
  \<^item> \<open>Form_View\<close>: what the list forms render as a function of their state (the
    inputs' labels, values and error slots; the header and submit message ids; the list
    labels; the empty message), with react-intl's \<open>formatMessage\<close> as a parameter.
    Lemmas, for both forms: the error slots after a rejected submit, and the pre-filled
    modal after \<open>onEdit\<close>.
  \<^item> This theory composes the three forms and the context into one app state
    (\<open>app_step\<close>, \<open>app_mount\<close>, \<open>app_reachable\<close>). It proves that the context mirrors
    every form in every reachable state when the context starts empty, that each form
    writes only its own fields.
    \<open>cert_work_steps_commute\<close>: a certification step that draws no id commutes with any
    work-experience step (the forms share only the id counter).
    \<open>runtime_refines_app\<close> justifies this synchronous model. From an idle runtime
    (\<open>idle\<close>), every event sequence of \<open>run_ui\<close> returns, and under \<open>app_of\<close> it
    computes \<open>foldl app_step\<close>. \<open>runtime_in_sync\<close> (in \<open>Effects\<close>) shows that after
    a mount on an empty context and any event sequence the loop settles with the context
    holding every form's state. \<open>cert_writes_follow_form_run\<close> shows the
    context receives exactly the snapshots \<open>form_run\<close> predicts: one per delete or
    accepted submit.

  \<^bold>\<open>Findings.\<close> \<open>closeModal\<close> does not clear \<open>currentId\<close>, so adding after a cancelled
  edit leaves the spec's machine: the modal opens in edit mode and the submit overwrites the
  cancelled record (\<open>cancel_edit_breaks_simulation\<close>). If that record was deleted in
  between, the added values are dropped instead (\<open>submit_stale_edit_discards\<close>). On mount
  the three effects run in one commit from one snapshot, so every write but the last is
  overwritten (\<open>mount_effects_last\<close>); which form's initial state reaches the context
  then depends on the mount order, which the sources do not fix.

  \<^bold>\<open>Assumptions and limits.\<close> The code's own loops are \<open>map\<close>, \<open>filter\<close> and
  \<open>find\<close>, so they are structural. \<open>show_nat\<close>'s termination proof is found by
  \<open>fun\<close>. The one loop that could run forever is React's render and commit loop
  (\<open>settle\<close>). It is a \<open>partial_function (option)\<close>, so no fuel bound is chosen,
  and \<open>settle_terminates\<close> proves it returns from every state.
  Modelled from the spec or from library documentation rather than from code under src/:
  \<^item> react-hook-form: \<open>handleSubmit\<close> validates with the resolver, then calls the
    handler; \<open>reset\<close> blanks values and errors.
  \<^item> yup's \<open>required\<close> (rejects the empty string).
  \<^item> The context's \<open>updateState\<close>.
  \<^item> React's effect semantics: dependencies compared by identity, and every setter of
    the forms given a newly built value.
  \<^item> The mount order of the forms (contact, certifications, work experience).
  \<^item> The UI guard that the modal covers the list.
  \<^item> \<open>CrudList\<close> showing each item's \<open>propertyToShow\<close>.
  \<^item> The spec's edit-surface machine, which is the refinement target, not code.

  \<^bold>\<open>Not modelled.\<close> The message catalogue and the markup of the base components
  (\<open>CrudList\<close>, \<open>Modal\<close>, \<open>Input\<close>, \<open>Button\<close>, \<open>Textarea\<close>) are not part of
  the sources; only the props the forms pass them are modelled. The source lines no definition
  translates are imports, the component declarations (\<open>useIntl()\<close>, \<open>React.FC\<close>)
  and closing braces. react-hook-form's re-validation on change after a submit
  (\<open>reValidateMode\<close>, \<open>isSubmitted\<close>) is not modelled: when it sets and clears
  \<open>isSubmitted\<close> around a \<open>reset()\<close> inside the submit handler depends on the
  library version, which the sources do not fix. The errors of the model are those of the
  last submit, so the view lemmas are stated right after a submit or an edit. \<open>Input\<close>
  replaces the whole vector of field values, which abstracts per-keystroke updates.
\<close>

record 'x app =
  ctx :: "'x resume_scheme"
  contact :: contact_state
  certs :: "cert_data form_state"
  works :: "work_data form_state"
  gen :: nat

fun app_step :: "'x app \<Rightarrow> app_event \<Rightarrow> 'x app" where
  "app_step a (ContactInput key v) =
     (let c = handleChange key v (contact a) in
      a\<lparr>contact := c, ctx := updateState (contact_sync (ctx a) c) (ctx a)\<rparr>)"
| "app_step a (CertUI e) =
     (let r = form_step cert_form (gen a) (certs a) e in
      a\<lparr>certs := form r, gen := seed r,
        ctx := (if setItems r then updateState (cert_sync (ctx a) (items (form r))) (ctx a) else ctx a)\<rparr>)"
| "app_step a (WorkUI e) =
     (let r = work_step (gen a) (works a) e in
      a\<lparr>works := form r, gen := seed r,
        ctx := (if setItems r then updateState (work_sync (ctx a) (items (form r))) (ctx a) else ctx a)\<rparr>)"

fun app_enabled :: "'x app \<Rightarrow> app_event \<Rightarrow> bool" where
  "app_enabled a (ContactInput key v) = (key \<in> set contact_fields)"
| "app_enabled a (CertUI e) = enabled (certs a) e"
| "app_enabled a (WorkUI e) = enabled (works a) e"

definition app_mount :: "'x resume_scheme \<Rightarrow> 'x app" where
  "app_mount c0 =
     \<lparr>ctx = mount_effects c0 [\<lambda>c. contact_sync c contact_init, \<lambda>c. cert_sync c [], \<lambda>c. work_sync c []],
      contact = contact_init, certs = init_form cert_form, works = init_form work_form, gen = 0\<rparr>"

inductive app_reachable :: "'x resume_scheme \<Rightarrow> 'x app \<Rightarrow> bool" for c0 where
  mount: "app_reachable c0 (app_mount c0)"
| step: "app_reachable c0 a \<Longrightarrow> app_enabled a e \<Longrightarrow> app_reachable c0 (app_step a e)"

definition mirrors :: "'x app \<Rightarrow> bool" where
  "mirrors a \<longleftrightarrow>
     certifications (ctx a) = items (certs a) \<and> workExperience (ctx a) = items (works a) \<and>
     resume.phoneNumber (ctx a) = contact_state.phoneNumber (contact a) \<and>
     resume.website (ctx a) = contact_state.website (contact a) \<and>
     resume.email (ctx a) = contact_state.email (contact a)"

definition empty_resume :: resume where
  "empty_resume = \<lparr>resume.phoneNumber = [], resume.website = [], resume.email = [],
                    certifications = [], workExperience = []\<rparr>"

definition app_of :: "'x runtime \<Rightarrow> 'x app" where
  "app_of rt = \<lparr>ctx = provider rt, contact = rcontact rt, certs = rcerts rt, works = rworks rt, gen = rgen rt\<rparr>"
  \<comment> \<open>what the synchronous model \<open>app\<close> keeps of the React runtime\<close>

lemma idle_settled [simp]: "idle (render (commit rt))"
  by (simp add: idle_def)

lemma dispatch_refines:
  assumes "idle rt"
  shows "app_of (render (commit (render (dispatch rt e)))) = app_step (app_of rt) e"
  using assms
  by (cases e) (auto simp: app_of_def commit_def effect_defs render_def idle_def dirty_def Let_def
                          updateState_def)

theorem app_step_mirrors: "mirrors a \<Longrightarrow> mirrors (app_step a e)"
proof (cases e)
  case (ContactInput key v)
  assume "mirrors a"
  with ContactInput show ?thesis
    by (simp add: mirrors_def contact_sync_def updateState_def Let_def)
next
  case (CertUI ev)
  assume m: "mirrors a"
  show ?thesis
  proof (cases "setItems (form_step cert_form (gen a) (certs a) ev)")
    case True
    with m CertUI show ?thesis by (simp add: mirrors_def cert_sync_def updateState_def Let_def)
  next
    case False
    then have "items (form (form_step cert_form (gen a) (certs a) ev)) = items (certs a)"
      by (rule quiet_step_items)
    with m False CertUI show ?thesis by (simp add: mirrors_def Let_def)
  qed
next
  case (WorkUI ev)
  assume m: "mirrors a"
  show ?thesis
  proof (cases "setItems (work_step (gen a) (works a) ev)")
    case True
    with m WorkUI show ?thesis by (simp add: mirrors_def work_sync_def updateState_def Let_def)
  next
    case False
    then have "items (form (work_step (gen a) (works a) ev)) = items (works a)"
      by (rule work_step_quiet_items)
    with m False WorkUI show ?thesis by (simp add: mirrors_def Let_def)
  qed
qed

text \<open>C15. Starting from a context whose contact fields and certifications are empty, in every reachable state of the three mounted forms the resume context holds exactly each form's current list and contact values.\<close>

theorem app_reachable_mirrors:
  assumes "certifications c0 = []" and "resume.phoneNumber c0 = []" and "resume.website c0 = []"
    and "resume.email c0 = []"
  shows "app_reachable c0 a \<Longrightarrow> mirrors a"
proof (induction rule: app_reachable.induct)
  case mount
  from assms show ?case
    by (simp add: mirrors_def app_mount_def mount_effects_last work_sync_def init_form_def contact_init_def)
next
  case (step a e)
  then show ?case by (simp add: app_step_mirrors)
qed

text \<open>C16. A step of one form changes only that form's fields of the resume context: certifications for the certification form, workExperience for the work form, the three contact fields for the contact form.\<close>

theorem app_step_frame:
  "(ctx (app_step a (CertUI e)))\<lparr>certifications := certifications (ctx a)\<rparr> = ctx a \<and>
   (ctx (app_step a (WorkUI e')))\<lparr>workExperience := workExperience (ctx a)\<rparr> = ctx a \<and>
   (ctx (app_step a (ContactInput key v)))\<lparr>resume.phoneNumber := resume.phoneNumber (ctx a),
      resume.website := resume.website (ctx a), resume.email := resume.email (ctx a)\<rparr> = ctx a"
  by (simp add: Let_def cert_sync_def work_sync_def contact_sync_def updateState_def)

theorem app_reachable_mirrors_witness:
  "app_reachable empty_resume (app_mount empty_resume) \<and> mirrors (app_mount empty_resume)"
proof -
  have h: "certifications empty_resume = []" "resume.phoneNumber empty_resume = []"
    "resume.website empty_resume = []" "resume.email empty_resume = []"
    by (simp_all add: empty_resume_def)
  from app_reachable_mirrors [OF h app_reachable.mount] show ?thesis
    by (simp add: app_reachable.mount)
qed

theorem handleChange_spec_witness:
  "contact_value (handleChange ''email'' ''me@x.org'' contact_init) ''email'' = ''me@x.org'' \<and>
   contact_value (handleChange ''email'' ''me@x.org'' contact_init) ''website'' = []"
proof -
  have h: "''email'' \<in> set contact_fields" "''website'' \<in> set contact_fields"
    by (simp_all add: contact_fields_def)
  from handleChange_spec [OF h(1) h(1), of "''me@x.org''" contact_init]
       handleChange_spec [OF h(1) h(2), of "''me@x.org''" contact_init]
  show ?thesis by (simp add: contact_value_def contact_init_def)
qed

text \<open>
  C26. A step of the certification form that draws no id commutes with any step of the
  work-experience form: the two forms write disjoint fields of the context, and only a
  create draws from the shared id counter.
\<close>

theorem cert_work_steps_commute:
  assumes noid: "seed (form_step cert_form (gen a) (certs a) e) = gen a"
  shows "app_step (app_step a (CertUI e)) (WorkUI e') = app_step (app_step a (WorkUI e')) (CertUI e)"
proof -
  let ?rw = "work_step (gen a) (works a) e'"
  from form_step_counter_indep [OF noid, of "seed ?rw"] have
    ind: "form (form_step cert_form (seed ?rw) (certs a) e) = form (form_step cert_form (gen a) (certs a) e)"
         "setItems (form_step cert_form (seed ?rw) (certs a) e) = setItems (form_step cert_form (gen a) (certs a) e)"
         "seed (form_step cert_form (seed ?rw) (certs a) e) = seed ?rw"
    by simp_all
  show ?thesis
    using noid by (simp add: Let_def ind cert_sync_def work_sync_def updateState_def)
qed

theorem cert_work_steps_commute_witness:
  "app_step (app_step (app_mount empty_resume) (CertUI OnAdd)) (WorkUI OnAdd) =
   app_step (app_step (app_mount empty_resume) (WorkUI OnAdd)) (CertUI OnAdd)"
proof -
  have h: "seed (form_step cert_form (gen (app_mount empty_resume)) (certs (app_mount empty_resume)) OnAdd) =
           gen (app_mount empty_resume)"
    by (simp add: quiet_def)
  from cert_work_steps_commute [OF h] show ?thesis .
qed

text \<open>
  C28. The synchronous model is what React computes. From an idle runtime, every sequence of
  UI events runs to completion, each event's render and commit loop settling, and the result,
  read as an app state, is the one \<open>app_step\<close> computes event by event.
\<close>

theorem runtime_refines_app:
  assumes "idle rt"
  shows "map_option app_of (run_ui rt es) = Some (foldl app_step (app_of rt) es)"
  using assms
proof (induction es arbitrary: rt)
  case Nil
  then show ?case by simp
next
  case (Cons e es)
  let ?R = "render (commit (render (dispatch rt e)))"
  have "map_option app_of (run_ui ?R es) = Some (foldl app_step (app_of ?R) es)"
    by (rule Cons.IH) simp
  with Cons.prems show ?case by (simp add: settle_dispatch dispatch_refines)
qed

text \<open>
  C29. The writes the effects deliver into the context are the snapshots \<open>form_run\<close>
  predicts. From an idle runtime, a run of certification events that the form accepts
  settles after every event, and the context receives exactly one write per delete or valid
  submit, each holding the whole list at that moment.
\<close>

theorem cert_writes_follow_form_run:
  assumes "idle rt" and "form_run cert_form (rgen rt) (rcerts rt) es = Some (n', s', ws)"
  shows "\<exists>rt'. run_ui rt (map CertUI es) = Some rt' \<and> rcerts rt' = s' \<and> rgen rt' = n' \<and>
               sink_log rt' = sink_log rt @ map WriteCerts ws"
  using assms
proof (induction es arbitrary: rt ws)
  case Nil
  then show ?case by simp
next
  case (Cons e es)
  let ?r = "form_step cert_form (rgen rt) (rcerts rt) e"
  let ?R = "render (commit (render (dispatch rt (CertUI e))))"
  from Cons.prems(2) obtain ws' where
    rest: "form_run cert_form (seed ?r) (form ?r) es = Some (n', s', ws')"
    and ws: "ws = (if setItems ?r then [items (form ?r)] else []) @ ws'"
    by (auto simp: Let_def split: if_splits option.splits)
  from Cons.prems(1) have R: "rcerts ?R = form ?r" "rgen ?R = seed ?r"
    "sink_log ?R = sink_log rt @ (if setItems ?r then [WriteCerts (items (form ?r))] else [])"
    using cert_dispatch_settled by blast+
  have "\<exists>rt'. run_ui ?R (map CertUI es) = Some rt' \<and> rcerts rt' = s' \<and> rgen rt' = n' \<and>
              sink_log rt' = sink_log ?R @ map WriteCerts ws'"
    by (rule Cons.IH) (simp_all only: R rest idle_settled)
  moreover have "run_ui rt (map CertUI (e # es)) = run_ui ?R (map CertUI es)"
    by (simp add: settle_dispatch del: dispatch.simps)
  ultimately show ?case using R ws by (cases "setItems ?r") (simp_all del: dispatch.simps)
qed

theorem settle_terminates_witness:
  "settle (rt_mount empty_resume) = Some (render (commit (render (rt_mount empty_resume)))) \<and>
   \<not> dirty (render (commit (render (rt_mount empty_resume))))"
proof -
  have p: "pending (rt_mount empty_resume)" by (simp add: rt_mount_def)
  from settle_terminates [of "rt_mount empty_resume"] p show ?thesis by auto
qed

theorem runtime_refines_app_witness:
  "map_option app_of (run_ui (render (commit (render (rt_mount empty_resume))))
                             [CertUI OnAdd, CertUI (Input aws_cert), CertUI Submit]) =
   Some (foldl app_step (app_of (render (commit (render (rt_mount empty_resume)))))
                [CertUI OnAdd, CertUI (Input aws_cert), CertUI Submit])"
  by (rule runtime_refines_app [of "render (commit (render (rt_mount empty_resume)))"]) simp

theorem cert_writes_follow_form_run_witness:
  "\<exists>rt'. run_ui (render (commit (render (rt_mount empty_resume))))
                (map CertUI [OnAdd, Input aws_cert, Submit]) = Some rt' \<and>
         sink_log rt' = [WriteContact contact_init, WriteCerts [], WriteWorks [],
                         WriteCerts [\<lparr>entry_id = uuid 0, data = aws_cert\<rparr>]]"
proof -
  let ?R = "render (commit (render (rt_mount empty_resume)))"
  have R: "rgen ?R = 0" "rcerts ?R = init_form cert_form"
    "sink_log ?R = [WriteContact contact_init, WriteCerts [], WriteWorks []]"
    by (simp_all add: rt_mount_def commit_def effect_defs render_def fresh_slot_def changed_def
                      init_form_def)
  have "\<exists>s'. form_run cert_form (rgen ?R) (rcerts ?R) [OnAdd, Input aws_cert, Submit] =
              Some (1, s', [[\<lparr>entry_id = uuid 0, data = aws_cert\<rparr>]])"
    unfolding R by (simp add: init_form_def handler_defs cert_examples cert_form_def cert_schema_def
                              required_def)
  then obtain s' where
    "form_run cert_form (rgen ?R) (rcerts ?R) [OnAdd, Input aws_cert, Submit] =
       Some (1, s', [[\<lparr>entry_id = uuid 0, data = aws_cert\<rparr>]])" ..
  from cert_writes_follow_form_run [OF idle_settled this] R(3) show ?thesis by auto
qed

theorem runtime_in_sync_witness:
  "\<exists>rt0. settle (rt_mount empty_resume) = Some rt0 \<and> in_sync rt0 \<and>
          (\<exists>rt. run_ui rt0 [CertUI OnAdd, CertUI (Input aws_cert), CertUI Submit, CertUI (OnDelete (uuid 0))]
                  = Some rt \<and> in_sync rt)"
proof -
  have h: "certifications empty_resume = []" "workExperience empty_resume = []"
    "resume.phoneNumber empty_resume = []" "resume.website empty_resume = []"
    "resume.email empty_resume = []"
    by (simp_all add: empty_resume_def)
  from runtime_in_sync [OF h] show ?thesis by blast
qed

end
